theory Spec2Isabelle
  imports Complex_Main
begin

section \<open>The energy data manager of \<open>src/js/data.js\<close>\<close>

text \<open>
  The class \<open>EnergyDataManager\<close> holds the whole application state in memory. Its
  objects are modelled as records, its arrays as lists, and every method as a function
  that takes the state and returns the new one. Conventions of the embedding:

  \<^item> A JavaScript number is a real number that is a double. Every sum, difference,
    product and quotient of the code is the exact result rounded to a double by the
    function \<open>fl\<close> of the platform (\<open>fadd\<close>, \<open>fsub\<close>, \<open>fmul\<close>, \<open>fdiv\<close> below), and a
    decimal literal that is not a double stands for \<open>fl\<close> of it. \<open>Math.round\<close> rounds
    half up and is exact. A result too large for a double does not occur in the
    figures of the simulation and is not modelled. The special values \<open>NaN\<close> and
    \<open>\<plusminus>Infinity\<close> are written out where a division can produce them (\<open>jsnum\<close> below).
  \<^item> A \<open>Date\<close> is its time value, an integer count of milliseconds.
  \<^item> What the browser supplies (the local-time fields of a date, the locale
    formatting of a date, the parsing of a string by the \<open>Date\<close> constructor, the
    conversion of a number to text, the rounding of a real number to a double, the
    sine) is a field of the record \<open>platform\<close>.
  \<^item> The results of the successive calls of \<open>Math.random()\<close> are a sequence
    \<open>nat \<Rightarrow> real\<close>; the functions that draw from it thread the index of the next
    draw.
\<close>

subsection \<open>Data model\<close>

record device =
  name :: string
  power :: real
  status :: string
  priority :: string

record household =
  hid :: string
  hname :: string
  hstatus :: string
  currentUsage :: real
  devices :: "device list"

record household_data =
  households :: "household list"

record generation_t =
  solar :: real
  wind :: real
  gen_total :: real

record consumption_t =
  cons_households :: real
  cons_total :: real

record battery_t =
  percentage :: real
  health :: string
  voltage :: real
  temperature :: real

record grid_t =
  grid_status :: string
  load :: real

record summary_t =
  totalGenerated :: real
  totalConsumed :: real
  efficiency :: real

record snapshot =
  timestamp :: int
  generation :: generation_t
  consumption :: consumption_t
  battery :: battery_t
  grid :: grid_t
  dailySummary :: summary_t

record series =
  labels :: "string list"
  s_generation :: "real list"
  s_consumption :: "real list"

text \<open>The object \<open>historicalData\<close> has exactly the keys \<open>'24h'\<close>, \<open>'7d'\<close>, \<open>'30d'\<close>.\<close>

record historical =
  h24 :: series
  h7d :: series
  h30d :: series

record alert =
  aid :: int
  atype :: string
  title :: string
  message :: string
  a_timestamp :: int
  dismissed :: bool

record system_controls =
  gridConnection :: bool
  autoLoadBalancing :: bool
  batteryCharging :: bool

record energy_limits =
  maxGridImport :: real
  batteryDischargeLimit :: real
  loadPriority :: string

record controls =
  systemControls :: system_controls
  energyLimits :: energy_limits

record schedule =
  sch_id :: int
  sch_name :: string
  sch_active :: bool
  sch_time :: string
  sch_action :: string
  sch_conditions :: string

record state =
  currentData :: snapshot
  historicalData :: historical
  householdData :: household_data
  alertsData :: "alert list"
  controlsData :: controls
  schedules :: "schedule list"

text \<open>
  The rounding of a real number to a double. What is kept of it is that it preserves
  the order, that every integer up to \<open>2^53\<close> in absolute value is a double, and that a
  double is rounded to itself; rounding to the nearest double has these properties.
\<close>

typedef rounding =
  "{f :: real \<Rightarrow> real.
      (\<forall>x y. x \<le> y \<longrightarrow> f x \<le> f y)
      \<and> (\<forall>k::int. \<bar>k\<bar> \<le> 2 ^ 53 \<longrightarrow> f (real_of_int k) = real_of_int k)
      \<and> (\<forall>x. f (f x) = f x)}"
  by (rule exI[of _ "\<lambda>x. x"]) simp

text \<open>
  The browser. \<open>parseDate s\<close> is the time value of \<open>new Date(s)\<close>, \<open>None\<close> for an
  invalid date (time value \<open>NaN\<close>). The four formatting functions are the calls of
  \<open>toLocaleTimeString\<close> and \<open>toLocaleDateString\<close> made by \<open>formatTimeForPeriod\<close>.
  \<open>toDouble\<close> is the rounding of the browser's arithmetic and \<open>mathSin\<close> is \<open>Math.sin\<close>.
\<close>

record platform =
  getHours :: "int \<Rightarrow> int"
  getDay :: "int \<Rightarrow> int"
  timeString_hm :: "int \<Rightarrow> string"
  dateString_weekday_hour :: "int \<Rightarrow> string"
  dateString_month_day :: "int \<Rightarrow> string"
  timeString_default :: "int \<Rightarrow> string"
  parseDate :: "string \<Rightarrow> int option"
  numberToString :: "real \<Rightarrow> string"
  toDouble :: rounding
  mathSin :: "real \<Rightarrow> real"

subsection \<open>Arrays\<close>

text \<open>
  \<open>Array.prototype.find\<close> returns the first element that satisfies the predicate, and
  the caller then mutates that object in place. The model finds its index.
\<close>

fun findIndex :: "('a \<Rightarrow> bool) \<Rightarrow> 'a list \<Rightarrow> nat option" where
  "findIndex P [] = None"
| "findIndex P (x # xs) =
     (if P x then Some 0
      else (case findIndex P xs of None \<Rightarrow> None | Some i \<Rightarrow> Some (Suc i)))"

subsection \<open>\<open>toggleDevice\<close>\<close>

definition toggleStatus :: "device \<Rightarrow> device" where
  "toggleStatus d = d\<lparr>status := (if status d = ''on'' then ''off'' else ''on'')\<rparr>"

definition toggleDevice :: "state \<Rightarrow> string \<Rightarrow> string \<Rightarrow> state \<times> bool" where
  "toggleDevice st householdId deviceName =
     (let hs = households (householdData st) in
      case findIndex (\<lambda>h. hid h = householdId) hs of
        None \<Rightarrow> (st, False)
      | Some i \<Rightarrow>
          (let h = hs ! i in
           case findIndex (\<lambda>d. name d = deviceName) (devices h) of
             None \<Rightarrow> (st, False)
           | Some j \<Rightarrow>
               (st\<lparr>householdData := (householdData st)\<lparr>households :=
                      hs[i := h\<lparr>devices := (devices h)[j := toggleStatus (devices h ! j)]\<rparr>]\<rparr>\<rparr>,
                True)))"

subsection \<open>Numbers\<close>

definition js_round :: "real \<Rightarrow> real" where
  \<comment> \<open>\<open>Math.round(x)\<close>: the nearest integer, a tie going up.\<close>
  "js_round x = of_int \<lfloor>x + 1 / 2\<rfloor>"

text \<open>\<open>fl pf x\<close> is the double that the browser returns for the exact result \<open>x\<close>.\<close>

definition fl :: "platform \<Rightarrow> real \<Rightarrow> real" where
  "fl pf = Rep_rounding (toDouble pf)"

definition mathPi :: "platform \<Rightarrow> real" where
  \<comment> \<open>\<open>Math.PI\<close>\<close>
  "mathPi pf = fl pf pi"

text \<open>
  The sum, the difference, the product and the quotient of two doubles, as the browser
  rounds them.
\<close>

definition fadd :: "platform \<Rightarrow> real \<Rightarrow> real \<Rightarrow> real" where
  "fadd pf x y = fl pf (x + y)"

definition fsub :: "platform \<Rightarrow> real \<Rightarrow> real \<Rightarrow> real" where
  "fsub pf x y = fl pf (x - y)"

definition fmul :: "platform \<Rightarrow> real \<Rightarrow> real \<Rightarrow> real" where
  "fmul pf x y = fl pf (x * y)"

definition fdiv :: "platform \<Rightarrow> real \<Rightarrow> real \<Rightarrow> real" where
  "fdiv pf x y = fl pf (x / y)"

definition round2 :: "platform \<Rightarrow> real \<Rightarrow> real" where
  \<comment> \<open>\<open>Math.round(x * 100) / 100\<close>\<close>
  "round2 pf x = fdiv pf (js_round (fmul pf x 100)) 100"

definition round1 :: "platform \<Rightarrow> real \<Rightarrow> real" where
  \<comment> \<open>\<open>Math.round(x * 10) / 10\<close>\<close>
  "round1 pf x = fdiv pf (js_round (fmul pf x 10)) 10"

subsection \<open>\<open>formatTimeForPeriod\<close>\<close>

definition formatTimeForPeriod :: "platform \<Rightarrow> int \<Rightarrow> string \<Rightarrow> string" where
  "formatTimeForPeriod pf date period =
     (if period = ''24h'' then timeString_hm pf date
      else if period = ''7d'' then dateString_weekday_hour pf date
      else if period = ''30d'' then dateString_month_day pf date
      else timeString_default pf date)"

subsection \<open>\<open>updateHouseholdConsumption\<close> and \<open>getTotalHouseholdConsumption\<close>\<close>

text \<open>
  The body of the inner \<open>forEach\<close>: the new power of one device and the index of the
  next random draw. \<open>c\<close> is the index of the next draw on entry. The literals 0.7, 0.3
  and 0.1 are not doubles and stand for the doubles nearest to them.
\<close>

definition devicePower ::
  "platform \<Rightarrow> (nat \<Rightarrow> real) \<Rightarrow> nat \<Rightarrow> int \<Rightarrow> device \<Rightarrow> real \<times> nat" where
  "devicePower pf rnd c hour d =
     (if status d = ''on'' then
        (if name d = ''HVAC'' \<or> name d = ''Heat Pump'' then
           (let p = fadd pf 2.5 (fmul pf (rnd c) 2)
            in (if hour \<ge> 22 \<or> hour \<le> 6 then fmul pf p (fl pf 0.7) else p, Suc c))
         else if name d = ''Water Heater'' then
           (if (hour \<ge> 6 \<and> hour \<le> 8) \<or> (hour \<ge> 18 \<and> hour \<le> 20)
            then (fadd pf 3 (fmul pf (rnd c) 1), Suc c) else (0.5, c))
         else if name d = ''Electric Vehicle'' then
           (if (hour \<ge> 22 \<or> hour \<le> 6) \<and> status d = ''on''
            then (fadd pf 6 (fmul pf (rnd c) 2), Suc c) else (0, c))
         else if name d = ''Lighting'' then
           (if hour \<le> 7 \<or> hour \<ge> 18
            then (fadd pf 0.5 (fmul pf (rnd c) (fl pf 0.3)), Suc c) else (fl pf 0.1, c))
         else if name d = ''Pool Pump'' then
           (if hour \<ge> 10 \<and> hour \<le> 16 then 1.5 else 0, c)
         else (fadd pf 0.5 (fmul pf (rnd c) 1), Suc c))
      else if status d = ''auto'' then
        (if hour \<le> 7 \<or> hour \<ge> 18 then fl pf 0.3 else 0, c)
      else (0, c))"

text \<open>
  The inner \<open>forEach\<close>, from the value \<open>totalUsage\<close> has before a device: the devices
  with their new power, the final \<open>totalUsage\<close>, the next draw.
\<close>

fun updateDevices ::
  "platform \<Rightarrow> (nat \<Rightarrow> real) \<Rightarrow> int \<Rightarrow> nat \<Rightarrow> real \<Rightarrow> device list
     \<Rightarrow> device list \<times> real \<times> nat" where
  "updateDevices pf rnd hour c totalUsage [] = ([], totalUsage, c)"
| "updateDevices pf rnd hour c totalUsage (d # ds) =
     (case devicePower pf rnd c hour d of (p, c1) \<Rightarrow>
        (case updateDevices pf rnd hour c1 (fadd pf totalUsage p) ds of (ds', usage, c2) \<Rightarrow>
           (d\<lparr>power := p\<rparr> # ds', usage, c2)))"

fun updateHouseholds ::
  "platform \<Rightarrow> (nat \<Rightarrow> real) \<Rightarrow> int \<Rightarrow> nat \<Rightarrow> household list \<Rightarrow> household list \<times> nat" where
  "updateHouseholds pf rnd hour c [] = ([], c)"
| "updateHouseholds pf rnd hour c (h # hs) =
     (case updateDevices pf rnd hour c 0 (devices h) of (ds', totalUsage, c1) \<Rightarrow>
        (case updateHouseholds pf rnd hour c1 hs of (hs', c2) \<Rightarrow>
           (h\<lparr>devices := ds', currentUsage := round2 pf totalUsage\<rparr> # hs', c2)))"

definition updateHouseholdConsumption ::
  "platform \<Rightarrow> (nat \<Rightarrow> real) \<Rightarrow> nat \<Rightarrow> int \<Rightarrow> int \<Rightarrow> household_data
     \<Rightarrow> household_data \<times> nat" where
  "updateHouseholdConsumption pf rnd c hour day hdata =
     (case updateHouseholds pf rnd hour c (households hdata) of (hs', c') \<Rightarrow>
        (hdata\<lparr>households := hs'\<rparr>, c'))"

definition getTotalHouseholdConsumption :: "platform \<Rightarrow> household_data \<Rightarrow> real" where
  "getTotalHouseholdConsumption pf hdata =
     foldl (\<lambda>total h. fadd pf total (currentUsage h)) 0 (households hdata)"

subsection \<open>Historical series\<close>

text \<open>
  \<open>shouldUpdateData\<close> and \<open>addDataPoint\<close> are only called with the three literal
  periods; the series \<open>this.historicalData[period]\<close> is passed by the caller.
  With an invalid date, \<open>timeDiff\<close> is \<open>NaN\<close> and every comparison is false.
\<close>

definition shouldUpdateData :: "platform \<Rightarrow> string \<Rightarrow> series \<Rightarrow> int \<Rightarrow> bool" where
  "shouldUpdateData pf period data currentTime =
     (if labels data = [] then True
      else (case parseDate pf (last (labels data)) of
              None \<Rightarrow> False
            | Some lastTime \<Rightarrow>
                (let timeDiff = currentTime - lastTime in
                 if period = ''24h'' then timeDiff \<ge> 30 * 60 * 1000
                 else if period = ''7d'' \<or> period = ''30d'' then timeDiff \<ge> 60 * 60 * 1000
                 else False)))"

definition maxPoints :: "string \<Rightarrow> nat" where
  "maxPoints period = (if period = ''24h'' then 48 else if period = ''7d'' then 168 else 720)"

text \<open>\<open>shift\<close> on an empty array does nothing, as \<open>tl []\<close> is \<open>[]\<close>.\<close>

definition addDataPoint :: "platform \<Rightarrow> string \<Rightarrow> series \<Rightarrow> snapshot \<Rightarrow> int \<Rightarrow> series" where
  "addDataPoint pf period data cur time =
     (let data1 = (if length (labels data) \<ge> maxPoints period
                   then \<lparr>labels = tl (labels data),
                         s_generation = tl (s_generation data),
                         s_consumption = tl (s_consumption data)\<rparr>
                   else data)
      in \<lparr>labels = labels data1 @ [formatTimeForPeriod pf time period],
          s_generation = s_generation data1 @ [gen_total (generation cur)],
          s_consumption = s_consumption data1 @ [cons_total (consumption cur)]\<rparr>)"

definition updateHistoricalData :: "platform \<Rightarrow> state \<Rightarrow> state" where
  "updateHistoricalData pf st =
     (let cur = currentData st;
          currentTime = timestamp cur;
          h = historicalData st;
          h1 = (if shouldUpdateData pf ''24h'' (h24 h) currentTime
                then h\<lparr>h24 := addDataPoint pf ''24h'' (h24 h) cur currentTime\<rparr> else h);
          h2 = (if shouldUpdateData pf ''7d'' (h7d h1) currentTime
                then h1\<lparr>h7d := addDataPoint pf ''7d'' (h7d h1) cur currentTime\<rparr> else h1);
          h3 = (if shouldUpdateData pf ''30d'' (h30d h2) currentTime
                then h2\<lparr>h30d := addDataPoint pf ''30d'' (h30d h2) cur currentTime\<rparr> else h2)
      in st\<lparr>historicalData := h3\<rparr>)"

subsection \<open>\<open>checkAlerts\<close>\<close>

text \<open>The test \<open>exists\<close> and the body of the \<open>forEach\<close> over the new alerts.\<close>

definition alertExists :: "alert list \<Rightarrow> alert \<Rightarrow> bool" where
  "alertExists alerts newAlert =
     list_ex (\<lambda>a. title a = title newAlert
                 \<and> \<bar>a_timestamp a - a_timestamp newAlert\<bar> < 5 * 60 * 1000) alerts"

definition insertAlert :: "alert list \<Rightarrow> alert \<Rightarrow> alert list" where
  "insertAlert alerts newAlert =
     (if \<not> alertExists alerts newAlert then newAlert # alerts else alerts)"

text \<open>The three alert objects that \<open>checkAlerts\<close> builds; \<open>tnow\<close> is the clock of the call.\<close>

definition criticalAlert :: "platform \<Rightarrow> int \<Rightarrow> snapshot \<Rightarrow> alert" where
  "criticalAlert pf tnow cur =
     \<lparr>aid = tnow, atype = ''critical'', title = ''Critical Battery Level'',
      message = ''Battery level is '' @ numberToString pf (percentage (battery cur))
                @ ''%. Immediate action required.'',
      a_timestamp = tnow, dismissed = False\<rparr>"

definition lowBatteryAlert :: "platform \<Rightarrow> int \<Rightarrow> snapshot \<Rightarrow> alert" where
  "lowBatteryAlert pf tnow cur =
     \<lparr>aid = tnow + 1, atype = ''warning'', title = ''Low Battery Warning'',
      message = ''Battery level is '' @ numberToString pf (percentage (battery cur))
                @ ''%. Consider reducing loads.'',
      a_timestamp = tnow, dismissed = False\<rparr>"

definition highGridLoadAlert :: "platform \<Rightarrow> int \<Rightarrow> snapshot \<Rightarrow> alert" where
  "highGridLoadAlert pf tnow cur =
     \<lparr>aid = tnow + 2, atype = ''warning'', title = ''High Grid Load'',
      message = ''Grid load is '' @ numberToString pf (load (grid cur))
                @ ''%. System under stress.'',
      a_timestamp = tnow, dismissed = False\<rparr>"

text \<open>The array \<open>alerts\<close> of the alerts raised by the current snapshot.\<close>

definition newAlerts :: "platform \<Rightarrow> int \<Rightarrow> snapshot \<Rightarrow> alert list" where
  "newAlerts pf tnow cur =
     (if percentage (battery cur) < 20 then [criticalAlert pf tnow cur]
      else if percentage (battery cur) < 30 then [lowBatteryAlert pf tnow cur]
      else [])
     @ (if load (grid cur) > 80 then [highGridLoadAlert pf tnow cur] else [])"

definition checkAlerts :: "platform \<Rightarrow> int \<Rightarrow> state \<Rightarrow> state" where
  "checkAlerts pf tnow st =
     st\<lparr>alertsData :=
          take 50 (foldl insertAlert (alertsData st) (newAlerts pf tnow (currentData st)))\<rparr>"

definition dismissAlert :: "state \<Rightarrow> int \<Rightarrow> state \<times> bool" where
  "dismissAlert st alertId =
     (case findIndex (\<lambda>a. aid a = alertId) (alertsData st) of
        None \<Rightarrow> (st, False)
      | Some i \<Rightarrow>
          (st\<lparr>alertsData := (alertsData st)[i := (alertsData st ! i)\<lparr>dismissed := True\<rparr>]\<rparr>,
           True))"

subsection \<open>\<open>generateCurrentData\<close>\<close>

text \<open>
  The method first computes its local variables (lines 210 to 256) and then stores the
  snapshot built from them (lines 258 to 290). The record \<open>locals\<close> holds the local
  variables, so that a statement can speak of a value before it is rounded.
  \<open>next_draw\<close> is the index of the next random draw after the household update.
\<close>

record locals =
  l_solar :: real
  l_wind :: real
  l_households :: household_data
  next_draw :: nat
  l_totalGeneration :: real
  l_totalConsumption :: real
  l_netEnergy :: real
  l_batteryPercentage :: real
  l_gridStatus :: string
  l_gridLoad :: real
  l_batteryHealth :: string
  l_efficiency :: real

text \<open>
  The quotient \<open>totalGeneration / totalConsumption\<close> is \<open>Infinity\<close> when the consumption
  is zero and the generation positive, and \<open>Math.min(100, Infinity)\<close> is 100; that case
  is written out.
\<close>

definition generateLocals :: "platform \<Rightarrow> (nat \<Rightarrow> real) \<Rightarrow> int \<Rightarrow> state \<Rightarrow> locals" where
  "generateLocals pf rnd now st =
     (let hour = getHours pf now;
          day = getDay pf now;
          solar_c = (if hour \<ge> 6 \<and> hour \<le> 18
                     then (let solarFactor =
                                 mathSin pf (fmul pf (fdiv pf (real_of_int (hour - 6)) 12)
                                               (mathPi pf))
                           in (fmul pf solarFactor (fadd pf 8 (fmul pf (rnd 0) 4)), Suc 0))
                     else (0, 0));
          solar = fst solar_c;
          c1 = snd solar_c;
          wind = fadd pf 3 (fmul pf (rnd c1) 6);
          hd_c = updateHouseholdConsumption pf rnd (Suc c1) hour day (householdData st);
          totalGeneration = fadd pf solar wind;
          totalConsumption = getTotalHouseholdConsumption pf (fst hd_c);
          netEnergy = fsub pf totalGeneration totalConsumption;
          batteryPercentage0 = percentage (battery (currentData st));
          batteryPercentage =
            (if netEnergy > 0
             then min 100 (fadd pf batteryPercentage0 (fmul pf netEnergy (fl pf 0.1)))
             else if netEnergy < 0
             then max 0 (fadd pf batteryPercentage0 (fmul pf netEnergy (fl pf 0.1)))
             else batteryPercentage0);
          gridStatus =
            (if batteryPercentage < batteryDischargeLimit (energyLimits (controlsData st))
                \<or> totalConsumption > fadd pf totalGeneration 2 then ''ON'' else ''OFF'');
          gridLoad = (if gridStatus = ''ON'' then min 100 (fmul pf \<bar>netEnergy\<bar> 10) else 0);
          batteryHealth =
            (if batteryPercentage < 10 then ''Critical''
             else if batteryPercentage < 30 then ''Warning'' else ''Good'');
          efficiency0 =
            (if totalGeneration > 0
             then (if totalConsumption = 0 then 100
                   else min 100 (fmul pf (fdiv pf totalGeneration totalConsumption) 100))
             else 0)
      in \<lparr>l_solar = solar, l_wind = wind, l_households = fst hd_c, next_draw = snd hd_c,
          l_totalGeneration = totalGeneration, l_totalConsumption = totalConsumption,
          l_netEnergy = netEnergy, l_batteryPercentage = batteryPercentage,
          l_gridStatus = gridStatus, l_gridLoad = gridLoad,
          l_batteryHealth = batteryHealth, l_efficiency = efficiency0\<rparr>)"

text \<open>
  \<open>now\<close> is the clock read at the start of the call and \<open>tnow\<close> the clock read by
  \<open>checkAlerts\<close>.
\<close>

definition generateCurrentData ::
  "platform \<Rightarrow> (nat \<Rightarrow> real) \<Rightarrow> int \<Rightarrow> int \<Rightarrow> state \<Rightarrow> state" where
  "generateCurrentData pf rnd now tnow st =
     (let L = generateLocals pf rnd now st;
          cur = \<lparr>timestamp = now,
                 generation = \<lparr>solar = round2 pf (l_solar L), wind = round2 pf (l_wind L),
                                gen_total = round2 pf (l_totalGeneration L)\<rparr>,
                 consumption = \<lparr>cons_households = round2 pf (l_totalConsumption L),
                                 cons_total = round2 pf (l_totalConsumption L)\<rparr>,
                 battery = \<lparr>percentage = js_round (l_batteryPercentage L),
                             health = l_batteryHealth L,
                             voltage = round1 pf (fadd pf 48 (fmul pf (fdiv pf (l_batteryPercentage L) 100) 6)),
                             temperature = round1 pf (fadd pf 25 (fmul pf (rnd (next_draw L)) 10))\<rparr>,
                 grid = \<lparr>grid_status = l_gridStatus L, load = js_round (l_gridLoad L)\<rparr>,
                 dailySummary =
                   \<lparr>totalGenerated =
                      round2 pf (fadd pf (totalGenerated (dailySummary (currentData st)))
                                (fdiv pf (l_totalGeneration L) 48)),
                    totalConsumed =
                      round2 pf (fadd pf (totalConsumed (dailySummary (currentData st)))
                                (fdiv pf (l_totalConsumption L) 48)),
                    efficiency = js_round (l_efficiency L)\<rparr>\<rparr>
      in checkAlerts pf tnow
           (updateHistoricalData pf (st\<lparr>currentData := cur, householdData := l_households L\<rparr>)))"

subsection \<open>The constructor\<close>

text \<open>
  The loop of \<open>initializePeriodData\<close>, \<open>for (let i = points - 1; i >= 0; i--)\<close>: the
  argument \<open>Suc i\<close> counts the iterations left, \<open>c\<close> is the index of the next random
  draw, and the three arrays grow by \<open>push\<close>.
\<close>

fun initLoop ::
  "platform \<Rightarrow> (nat \<Rightarrow> real) \<Rightarrow> int \<Rightarrow> string \<Rightarrow> int \<Rightarrow> nat \<Rightarrow> nat \<Rightarrow> series
     \<Rightarrow> series \<times> nat" where
  "initLoop pf rnd now period intervalMinutes 0 c acc = (acc, c)"
| "initLoop pf rnd now period intervalMinutes (Suc i) c acc =
     (let t = now - (int i * intervalMinutes * 60 * 1000);
          hour = getHours pf t;
          day = getDay pf t;
          solar_c = (if hour \<ge> 6 \<and> hour \<le> 18
                     then (let solarFactor =
                                 mathSin pf (fmul pf (fdiv pf (real_of_int (hour - 6)) 12)
                                               (mathPi pf))
                           in (fmul pf solarFactor (fadd pf 8 (fmul pf (rnd c) 4)), Suc c))
                     else (0, c));
          solarGen = fst solar_c;
          c1 = snd solar_c;
          windGen = fadd pf 3 (fmul pf (rnd c1) 6);
          totalGen = fadd pf solarGen windGen;
          consumptionBase =
            (if day \<ge> 1 \<and> day \<le> 5 then
               (if (hour \<ge> 7 \<and> hour \<le> 9) \<or> (hour \<ge> 18 \<and> hour \<le> 22) then 8
                else if hour \<ge> 10 \<and> hour \<le> 17 then 6 else 4)
             else (if hour \<ge> 10 \<and> hour \<le> 22 then 7 else 4));
          totalCons = fadd pf consumptionBase (fmul pf (rnd (Suc c1)) 3)
      in initLoop pf rnd now period intervalMinutes i (Suc (Suc c1))
           \<lparr>labels = labels acc @ [formatTimeForPeriod pf t period],
            s_generation = s_generation acc @ [round2 pf totalGen],
            s_consumption = s_consumption acc @ [round2 pf totalCons]\<rparr>)"

definition initializePeriodData ::
  "platform \<Rightarrow> (nat \<Rightarrow> real) \<Rightarrow> nat \<Rightarrow> int \<Rightarrow> string \<Rightarrow> nat \<Rightarrow> int \<Rightarrow> series \<times> nat" where
  "initializePeriodData pf rnd c now period points intervalMinutes =
     initLoop pf rnd now period intervalMinutes points c
       \<lparr>labels = [], s_generation = [], s_consumption = []\<rparr>"

definition initializeHistoricalData ::
  "platform \<Rightarrow> (nat \<Rightarrow> real) \<Rightarrow> int \<Rightarrow> historical" where
  "initializeHistoricalData pf rnd now =
     (let r1 = initializePeriodData pf rnd 0 now ''24h'' 48 30;
          r2 = initializePeriodData pf rnd (snd r1) now ''7d'' 168 60;
          r3 = initializePeriodData pf rnd (snd r2) now ''30d'' 720 60
      in \<lparr>h24 = fst r1, h7d = fst r2, h30d = fst r3\<rparr>)"

definition generateAlerts :: "int \<Rightarrow> alert list" where
  "generateAlerts now =
     [\<lparr>aid = 1, atype = ''warning'', title = ''Low Battery Alert'',
       message = ''Battery level is below 25%. Consider reducing non-essential loads.'',
       a_timestamp = now - 5 * 60 * 1000, dismissed = False\<rparr>,
      \<lparr>aid = 2, atype = ''info'', title = ''Maintenance Reminder'',
       message = ''Solar panel cleaning recommended. Last cleaning: 30 days ago.'',
       a_timestamp = now - 2 * 60 * 60 * 1000, dismissed = False\<rparr>,
      \<lparr>aid = 3, atype = ''critical'', title = ''Grid Connection Lost'',
       message = ''Grid connection has been lost. System running on battery power.'',
       a_timestamp = now - 10 * 60 * 1000, dismissed = True\<rparr>]"

definition initialHouseholds :: "household list" where
  "initialHouseholds =
     [\<lparr>hid = ''house1'', hname = ''House 1'', hstatus = ''Active'', currentUsage = 0,
       devices =
         [\<lparr>name = ''HVAC'', power = 0, status = ''on'', priority = ''high''\<rparr>,
          \<lparr>name = ''Water Heater'', power = 0, status = ''on'', priority = ''medium''\<rparr>,
          \<lparr>name = ''Refrigerator'', power = 0.8, status = ''on'', priority = ''high''\<rparr>,
          \<lparr>name = ''Lighting'', power = 0, status = ''on'', priority = ''low''\<rparr>]\<rparr>,
      \<lparr>hid = ''house2'', hname = ''House 2'', hstatus = ''Active'', currentUsage = 0,
       devices =
         [\<lparr>name = ''HVAC'', power = 0, status = ''on'', priority = ''high''\<rparr>,
          \<lparr>name = ''Electric Vehicle'', power = 0, status = ''off'', priority = ''low''\<rparr>,
          \<lparr>name = ''Washer/Dryer'', power = 0, status = ''off'', priority = ''low''\<rparr>,
          \<lparr>name = ''Kitchen Appliances'', power = 0, status = ''on'',
           priority = ''medium''\<rparr>]\<rparr>,
      \<lparr>hid = ''house3'', hname = ''House 3'', hstatus = ''Active'', currentUsage = 0,
       devices =
         [\<lparr>name = ''Heat Pump'', power = 0, status = ''on'', priority = ''high''\<rparr>,
          \<lparr>name = ''Pool Pump'', power = 0, status = ''off'', priority = ''low''\<rparr>,
          \<lparr>name = ''Electronics'', power = 0, status = ''on'', priority = ''medium''\<rparr>,
          \<lparr>name = ''Outdoor Lighting'', power = 0, status = ''auto'', priority = ''low''\<rparr>]\<rparr>]"

text \<open>The state after \<open>new EnergyDataManager()\<close>; \<open>now\<close> is the clock of the construction.\<close>

definition newManager :: "platform \<Rightarrow> (nat \<Rightarrow> real) \<Rightarrow> int \<Rightarrow> state" where
  "newManager pf rnd now =
     \<lparr>currentData =
        \<lparr>timestamp = now,
         generation = \<lparr>solar = 0, wind = 0, gen_total = 0\<rparr>,
         consumption = \<lparr>cons_households = 0, cons_total = 0\<rparr>,
         battery = \<lparr>percentage = 75, health = ''Good'', voltage = 0, temperature = 0\<rparr>,
         grid = \<lparr>grid_status = ''OFF'', load = 0\<rparr>,
         dailySummary = \<lparr>totalGenerated = 0, totalConsumed = 0, efficiency = 0\<rparr>\<rparr>,
      historicalData = initializeHistoricalData pf rnd now,
      householdData = \<lparr>households = initialHouseholds\<rparr>,
      alertsData = generateAlerts now,
      controlsData =
        \<lparr>systemControls =
           \<lparr>gridConnection = True, autoLoadBalancing = True, batteryCharging = True\<rparr>,
         energyLimits =
           \<lparr>maxGridImport = 10, batteryDischargeLimit = 20, loadPriority = ''normal''\<rparr>\<rparr>,
      schedules =
        [\<lparr>sch_id = 1, sch_name = ''Night Charging'', sch_active = True,
          sch_time = ''22:00 - 06:00'', sch_action = ''Charge EV'',
          sch_conditions = ''Low grid rates''\<rparr>,
         \<lparr>sch_id = 2, sch_name = ''Peak Shaving'', sch_active = True,
          sch_time = ''16:00 - 20:00'', sch_action = ''Reduce non-essential loads'',
          sch_conditions = ''High grid rates''\<rparr>]\<rparr>"

subsection \<open>\<open>getReportData\<close>\<close>

text \<open>
  The statistics divide by an array length and by an average, so their values range
  over the numbers with \<open>NaN\<close> and the two infinities. The sign of a zero is not
  modelled: every zero is \<open>+0\<close>, which is what sums and lengths of arrays of
  non-negative numbers give.
\<close>

datatype jsnum = Num real | PosInf | NegInf | NaN

fun js_div :: "platform \<Rightarrow> jsnum \<Rightarrow> jsnum \<Rightarrow> jsnum" where
  "js_div pf (Num a) (Num b) =
     (if b = 0 then (if a = 0 then NaN else if a > 0 then PosInf else NegInf)
      else Num (fdiv pf a b))"
| "js_div pf (Num a) PosInf = Num 0"
| "js_div pf (Num a) NegInf = Num 0"
| "js_div pf PosInf (Num b) = (if b \<ge> 0 then PosInf else NegInf)"
| "js_div pf NegInf (Num b) = (if b \<ge> 0 then NegInf else PosInf)"
| "js_div pf _ _ = NaN"

fun js_mul :: "platform \<Rightarrow> jsnum \<Rightarrow> jsnum \<Rightarrow> jsnum" where
  "js_mul pf (Num a) (Num b) = Num (fmul pf a b)"
| "js_mul pf PosInf (Num b) = (if b = 0 then NaN else if b > 0 then PosInf else NegInf)"
| "js_mul pf NegInf (Num b) = (if b = 0 then NaN else if b > 0 then NegInf else PosInf)"
| "js_mul pf (Num a) PosInf = (if a = 0 then NaN else if a > 0 then PosInf else NegInf)"
| "js_mul pf (Num a) NegInf = (if a = 0 then NaN else if a > 0 then NegInf else PosInf)"
| "js_mul pf PosInf PosInf = PosInf"
| "js_mul pf NegInf NegInf = PosInf"
| "js_mul pf PosInf NegInf = NegInf"
| "js_mul pf NegInf PosInf = NegInf"
| "js_mul pf _ _ = NaN"

fun js_gt :: "jsnum \<Rightarrow> jsnum \<Rightarrow> bool" where
  "js_gt (Num a) (Num b) = (a > b)"
| "js_gt PosInf (Num b) = True"
| "js_gt PosInf NegInf = True"
| "js_gt (Num a) NegInf = True"
| "js_gt _ _ = False"

fun js_Math_round :: "jsnum \<Rightarrow> jsnum" where
  "js_Math_round (Num a) = Num (js_round a)"
| "js_Math_round x = x"

definition js_round2 :: "platform \<Rightarrow> jsnum \<Rightarrow> jsnum" where
  \<comment> \<open>\<open>Math.round(x * 100) / 100\<close>\<close>
  "js_round2 pf x = js_div pf (js_Math_round (js_mul pf x (Num 100))) (Num 100)"

definition js_Math_max :: "real list \<Rightarrow> jsnum" where
  \<comment> \<open>\<open>Math.max(...xs)\<close>, which is \<open>-Infinity\<close> without arguments\<close>
  "js_Math_max xs = (if xs = [] then NegInf else Num (foldl max (hd xs) (tl xs)))"

definition js_sum :: "platform \<Rightarrow> real list \<Rightarrow> real" where
  \<comment> \<open>\<open>xs.reduce((a, b) => a + b, 0)\<close>\<close>
  "js_sum pf xs = foldl (\<lambda>a b. fadd pf a b) 0 xs"

datatype js_error = TypeError

record statistics =
  avgGeneration :: jsnum
  avgConsumption :: jsnum
  st_efficiency :: jsnum
  peakGeneration :: jsnum
  peakConsumption :: jsnum
  totalGeneration :: jsnum
  totalConsumption :: jsnum

record report =
  r_period :: string
  r_data :: series
  r_statistics :: statistics

text \<open>\<open>this.historicalData[period]\<close>, \<open>None\<close> for \<open>undefined\<close>.\<close>

definition lookupPeriod :: "historical \<Rightarrow> string \<Rightarrow> series option" where
  "lookupPeriod h period =
     (if period = ''24h'' then Some (h24 h)
      else if period = ''7d'' then Some (h7d h)
      else if period = ''30d'' then Some (h30d h)
      else None)"

text \<open>
  The statistics of one series. The two averages are computed first, then the
  efficiency and the peaks, as in the method.
\<close>

definition reportStatistics :: "platform \<Rightarrow> series \<Rightarrow> statistics" where
  "reportStatistics pf data =
     (let avgGen = js_div pf (Num (js_sum pf (s_generation data)))
                             (Num (real (length (s_generation data))));
          avgCons = js_div pf (Num (js_sum pf (s_consumption data)))
                              (Num (real (length (s_consumption data))));
          eff = (if js_gt avgGen (Num 0) then js_mul pf (js_div pf avgGen avgCons) (Num 100)
                 else Num 0);
          peakGen = js_Math_max (s_generation data);
          peakCons = js_Math_max (s_consumption data)
      in \<lparr>avgGeneration = js_round2 pf avgGen,
          avgConsumption = js_round2 pf avgCons,
          st_efficiency = js_Math_round eff,
          peakGeneration = js_round2 pf peakGen,
          peakConsumption = js_round2 pf peakCons,
          totalGeneration = js_round2 pf (Num (js_sum pf (s_generation data))),
          totalConsumption = js_round2 pf (Num (js_sum pf (s_consumption data)))\<rparr>)"

text \<open>
  For a period that is not a key of \<open>historicalData\<close> the copy \<open>{...undefined}\<close> is an
  empty object, and reading \<open>data.generation.reduce\<close> throws a \<open>TypeError\<close>.
\<close>

definition getReportData :: "platform \<Rightarrow> state \<Rightarrow> string \<Rightarrow> js_error + report" where
  "getReportData pf st period =
     (case lookupPeriod (historicalData st) period of
        None \<Rightarrow> Inl TypeError
      | Some data \<Rightarrow>
          Inr \<lparr>r_period = period, r_data = data, r_statistics = reportStatistics pf data\<rparr>)"

subsection \<open>Sequences of calls\<close>

text \<open>
  A call of the public interface: a snapshot generation with what it reads from
  outside, or a device toggle.
\<close>

datatype call =
  Generate "nat \<Rightarrow> real" int int
| Toggle string string

fun perform :: "platform \<Rightarrow> state \<Rightarrow> call \<Rightarrow> state" where
  "perform pf st (Generate rnd now tnow) = generateCurrentData pf rnd now tnow st"
| "perform pf st (Toggle householdId deviceName) = fst (toggleDevice st householdId deviceName)"

definition performAll :: "platform \<Rightarrow> state \<Rightarrow> call list \<Rightarrow> state" where
  "performAll pf st cs = foldl (perform pf) st cs"

text \<open>A sequence of appends to one series: each with its snapshot and its time.\<close>

definition addDataPoints ::
  "platform \<Rightarrow> string \<Rightarrow> series \<Rightarrow> (snapshot \<times> int) list \<Rightarrow> series" where
  "addDataPoints pf period data ps =
     foldl (\<lambda>d (cur, t). addDataPoint pf period d cur t) data ps"

text \<open>The status of the device \<open>households[i].devices[j]\<close>, and of all devices.\<close>

definition deviceStatus :: "state \<Rightarrow> nat \<Rightarrow> nat \<Rightarrow> string" where
  "deviceStatus st i j = status (devices (households (householdData st) ! i) ! j)"

definition statuses :: "state \<Rightarrow> string list list" where
  "statuses st = map (\<lambda>h. map status (devices h)) (households (householdData st))"

subsection \<open>An example browser\<close>

text \<open>
  A browser to run the model on: the time zone is UTC, the labels are those of the
  locale \<open>en-US\<close> (\<open>14:05\<close>, \<open>Tue, 02 PM\<close>, \<open>Nov 3\<close>), and the \<open>Date\<close> constructor reads a
  month and a day without a year as midnight of that day in 2001, as V8 does, and
  rejects every other string. Days are counted from 1 January 1970, a Thursday.
  Its arithmetic is exact and its sine is the sine of the real numbers: the numbers
  of the examples below are chosen so that the rounding to a double changes neither a
  comparison nor a stored value.
\<close>

fun showNat :: "nat \<Rightarrow> string" where
  "showNat n =
     (if n < 10 then [''0123456789'' ! n]
      else showNat (n div 10) @ [''0123456789'' ! (n mod 10)])"

declare showNat.simps [simp del]

definition twoDigits :: "int \<Rightarrow> string" where
  "twoDigits n = (if n < 10 then ''0'' @ showNat (nat n) else showNat (nat n))"

definition monthNames :: "string list" where
  "monthNames = [''Jan'', ''Feb'', ''Mar'', ''Apr'', ''May'', ''Jun'',
                 ''Jul'', ''Aug'', ''Sep'', ''Oct'', ''Nov'', ''Dec'']"

definition dayNames :: "string list" where
  "dayNames = [''Sun'', ''Mon'', ''Tue'', ''Wed'', ''Thu'', ''Fri'', ''Sat'']"

definition monthDayOfDays :: "int \<Rightarrow> int \<times> int" where
  \<comment> \<open>the month (1 to 12) and the day of the month of a day number\<close>
  "monthDayOfDays days =
     (let z = days + 719468;
          doe = z mod 146097;
          yoe = (doe - doe div 1460 + doe div 36524 - doe div 146096) div 365;
          doy = doe - (365 * yoe + yoe div 4 - yoe div 100);
          mp = (5 * doy + 2) div 153
      in (if mp < 10 then mp + 3 else mp - 9, doy - (153 * mp + 2) div 5 + 1))"

definition daysOfDate :: "int \<Rightarrow> int \<Rightarrow> int \<Rightarrow> int" where
  \<comment> \<open>the day number of a year, a month (1 to 12) and a day of the month\<close>
  "daysOfDate y m d =
     (let y' = (if m \<le> 2 then y - 1 else y);
          yoe = y' mod 400;
          doy = (153 * (if m > 2 then m - 3 else m + 9) + 2) div 5 + d - 1;
          doe = yoe * 365 + yoe div 4 - yoe div 100 + doy
      in (y' div 400) * 146097 + doe - 719468)"

definition monthDayLabel :: "int \<times> int \<Rightarrow> string" where
  "monthDayLabel md = monthNames ! nat (fst md - 1) @ '' '' @ showNat (nat (snd md))"

definition hour12 :: "int \<Rightarrow> int" where
  "hour12 h = (if h mod 12 = 0 then 12 else h mod 12)"

definition amPm :: "int \<Rightarrow> string" where
  "amPm h = (if h < 12 then ''AM'' else ''PM'')"

definition exampleParseDate :: "string \<Rightarrow> int option" where
  "exampleParseDate s =
     (case List.find (\<lambda>md. monthDayLabel md = s)
                     (List.product (map int [1..<13]) (map int [1..<32])) of
        None \<Rightarrow> None
      | Some md \<Rightarrow> Some (daysOfDate 2001 (fst md) (snd md) * 86400000))"

definition exampleNumberToString :: "real \<Rightarrow> string" where
  \<comment> \<open>the text of an integer, which is what \<open>Math.round\<close> returns\<close>
  "exampleNumberToString x = (if x < 0 then ''-'' else []) @ showNat (nat \<lfloor>\<bar>x\<bar>\<rfloor>)"

text \<open>The rounding that leaves every number as it is.\<close>

definition exact :: rounding where
  "exact = Abs_rounding (\<lambda>x. x)"

definition examplePlatform :: platform where
  "examplePlatform =
     \<lparr>getHours = (\<lambda>t. (t div 3600000) mod 24),
      getDay = (\<lambda>t. (t div 86400000 + 4) mod 7),
      timeString_hm =
        (\<lambda>t. twoDigits ((t div 3600000) mod 24) @ '':'' @ twoDigits ((t div 60000) mod 60)),
      dateString_weekday_hour =
        (\<lambda>t. dayNames ! nat ((t div 86400000 + 4) mod 7) @ '', ''
              @ twoDigits (hour12 ((t div 3600000) mod 24)) @ '' ''
              @ amPm ((t div 3600000) mod 24)),
      dateString_month_day = (\<lambda>t. monthDayLabel (monthDayOfDays (t div 86400000))),
      timeString_default =
        (\<lambda>t. showNat (nat (hour12 ((t div 3600000) mod 24))) @ '':''
              @ twoDigits ((t div 60000) mod 60) @ '':'' @ twoDigits ((t div 1000) mod 60)
              @ '' '' @ amPm ((t div 3600000) mod 24)),
      parseDate = exampleParseDate,
      numberToString = exampleNumberToString,
      toDouble = exact,
      mathSin = sin\<rparr>"

text \<open>
  The manager constructed in the example browser on 3 November 2026 at 12:00:00 UTC,
  every random draw being one half.
\<close>

definition exampleState :: state where
  "exampleState = newManager examplePlatform (\<lambda>_. 1 / 2) 1793707200000"

subsection \<open>Invariants\<close>

text \<open>
  The invariant of the series of a period: the three arrays have the same length, and
  that length is at most the cap of the period.
\<close>

definition seriesInvariant :: "string \<Rightarrow> series \<Rightarrow> bool" where
  "seriesInvariant period data =
     (length (labels data) = length (s_generation data)
      \<and> length (s_generation data) = length (s_consumption data)
      \<and> length (labels data) \<le> maxPoints period)"

definition historicalInvariant :: "historical \<Rightarrow> bool" where
  "historicalInvariant h =
     (seriesInvariant ''24h'' (h24 h) \<and> seriesInvariant ''7d'' (h7d h)
      \<and> seriesInvariant ''30d'' (h30d h))"

text \<open>
  The example manager with its battery at a given percentage, and the random draws
  whose first value is \<open>r\<close> and whose other values are 0.
\<close>

definition exampleStateAt :: "real \<Rightarrow> state" where
  "exampleStateAt p =
     exampleState\<lparr>currentData :=
       (currentData exampleState)\<lparr>battery :=
         (battery (currentData exampleState))\<lparr>percentage := p\<rparr>\<rparr>\<rparr>"

definition firstDraw :: "real \<Rightarrow> nat \<Rightarrow> real" where
  "firstDraw r n = (if n = 0 then r else 0)"

subsection \<open>An example run\<close>

text \<open>
  The calls that switch every device of the constructed manager off: one toggle for a
  device that is \<open>on\<close>, two for the one that is \<open>auto\<close>. Then \<open>n\<close> snapshot generations,
  5 seconds apart, the first one second after the construction, every random draw
  being one half.
\<close>

definition switchOffCalls :: "call list" where
  "switchOffCalls =
     [Toggle ''house1'' ''HVAC'', Toggle ''house1'' ''Water Heater'',
      Toggle ''house1'' ''Refrigerator'', Toggle ''house1'' ''Lighting'',
      Toggle ''house2'' ''HVAC'', Toggle ''house2'' ''Kitchen Appliances'',
      Toggle ''house3'' ''Heat Pump'', Toggle ''house3'' ''Electronics'',
      Toggle ''house3'' ''Outdoor Lighting'', Toggle ''house3'' ''Outdoor Lighting'']"

definition snapshotCalls :: "nat \<Rightarrow> call list" where
  "snapshotCalls n =
     map (\<lambda>k. Generate (\<lambda>_. 1 / 2) (1793707201000 + 5000 * int k)
                (1793707201000 + 5000 * int k)) [0..<n]"

text \<open>Every device of every household has the status \<open>off\<close>.\<close>

definition allOff :: "state \<Rightarrow> bool" where
  "allOff st = list_all (list_all (\<lambda>s. s = ''off'')) (statuses st)"

section \<open>Properties\<close>

subsection \<open>Arrays and device toggles\<close>

lemma findIndex_None: "(findIndex P xs = None) = (\<forall>x\<in>set xs. \<not> P x)"
  by (induction xs) (auto split: option.splits)

lemma findIndex_Some:
  "(findIndex P xs = Some i) = (i < length xs \<and> P (xs ! i) \<and> (\<forall>k<i. \<not> P (xs ! k)))"
proof (induction xs arbitrary: i)
  case Nil
  then show ?case by simp
next
  case (Cons x xs)
  show ?case
  proof (cases "P x")
    case True
    then show ?thesis by (cases i) auto
  next
    case False
    show ?thesis
    proof (cases i)
      case 0
      with False show ?thesis by (auto split: option.splits)
    next
      case (Suc n)
      with False Cons[of n] show ?thesis
        by (auto split: option.splits simp: All_less_Suc2)
    qed
  qed
qed

lemma toggleDevice_cases:
  obtains (unchanged) "toggleDevice st h d = (st, False)"
  | (toggled) i j where "i < length (households (householdData st))"
      "j < length (devices (households (householdData st) ! i))"
      "findIndex (\<lambda>x. hid x = h) (households (householdData st)) = Some i"
      "findIndex (\<lambda>x. name x = d) (devices (households (householdData st) ! i)) = Some j"
      "toggleDevice st h d =
         (st\<lparr>householdData := (householdData st)\<lparr>households :=
             (households (householdData st))[i := (households (householdData st) ! i)
                \<lparr>devices := (devices (households (householdData st) ! i))
                   [j := toggleStatus (devices (households (householdData st) ! i) ! j)]\<rparr>]\<rparr>\<rparr>, True)"
proof (cases "findIndex (\<lambda>x. hid x = h) (households (householdData st))")
  case None
  then show ?thesis using unchanged by (simp add: toggleDevice_def)
next
  case (Some i)
  note Si = Some
  show ?thesis
  proof (cases "findIndex (\<lambda>x. name x = d) (devices (households (householdData st) ! i))")
    case None
    with Si show ?thesis using unchanged by (simp add: toggleDevice_def Let_def)
  next
    case (Some j)
    from Si have "i < length (households (householdData st))" by (simp add: findIndex_Some)
    moreover from Some have "j < length (devices (households (householdData st) ! i))"
      by (simp add: findIndex_Some)
    ultimately show ?thesis using toggled[of i j] Si Some
      by (simp add: toggleDevice_def Let_def)
  qed
qed

lemma statuses_nth:
  "i < length (households (householdData st)) \<Longrightarrow>
   j < length (devices (households (householdData st) ! i)) \<Longrightarrow>
   statuses st ! i ! j = deviceStatus st i j"
  by (simp add: statuses_def deviceStatus_def)

lemma statuses_toggleDevice:
  "statuses (fst (toggleDevice st h d)) = statuses st
   \<or> (\<exists>i j. i < length (statuses st) \<and> j < length (statuses st ! i)
        \<and> statuses (fst (toggleDevice st h d)) =
            (statuses st)[i := (statuses st ! i)[j := (if statuses st ! i ! j = ''on'' then ''off'' else ''on'')]])"
proof (cases rule: toggleDevice_cases[of st h d])
  case unchanged
  then show ?thesis by simp
next
  case (toggled i j)
  then have "i < length (statuses st) \<and> j < length (statuses st ! i)
        \<and> statuses (fst (toggleDevice st h d)) =
            (statuses st)[i := (statuses st ! i)[j := (if statuses st ! i ! j = ''on'' then ''off'' else ''on'')]]"
    by (simp add: statuses_def map_update toggleStatus_def)
  then show ?thesis by blast
qed


lemma updateDevices_status:
  "map status (fst (updateDevices pf rnd hour c t ds)) = map status ds"
proof (induction ds arbitrary: c t)
  case Nil
  then show ?case by simp
next
  case (Cons d ds)
  obtain p c1 where dp: "devicePower pf rnd c hour d = (p, c1)"
    by (cases "devicePower pf rnd c hour d") auto
  obtain ds' tot c2 where ud: "updateDevices pf rnd hour c1 (fadd pf t p) ds = (ds', tot, c2)"
    by (cases "updateDevices pf rnd hour c1 (fadd pf t p) ds") auto
  from Cons[of c1 "fadd pf t p"] ud have "map status ds' = map status ds" by simp
  with dp ud show ?case by simp
qed

lemma updateHouseholds_status:
  "map (\<lambda>h. map status (devices h)) (fst (updateHouseholds pf rnd hour c hs))
   = map (\<lambda>h. map status (devices h)) hs"
proof (induction hs arbitrary: c)
  case Nil
  then show ?case by simp
next
  case (Cons h hs)
  obtain ds' tot c1 where ud: "updateDevices pf rnd hour c 0 (devices h) = (ds', tot, c1)"
    by (cases "updateDevices pf rnd hour c 0 (devices h)") auto
  obtain hs' c2 where uh: "updateHouseholds pf rnd hour c1 hs = (hs', c2)"
    by (cases "updateHouseholds pf rnd hour c1 hs") auto
  from updateDevices_status[of pf rnd hour c 0 "devices h"] ud
  have "map status ds' = map status (devices h)" by simp
  moreover from Cons[of c1] uh
  have "map (\<lambda>h. map status (devices h)) hs' = map (\<lambda>h. map status (devices h)) hs" by simp
  ultimately show ?case using ud uh by simp
qed

lemma householdData_checkAlerts [simp]:
  "householdData (checkAlerts pf tnow st) = householdData st"
  by (simp add: checkAlerts_def)

lemma householdData_updateHistoricalData [simp]:
  "householdData (updateHistoricalData pf st) = householdData st"
  by (simp add: updateHistoricalData_def Let_def)

lemma householdData_generateCurrentData:
  "householdData (generateCurrentData pf rnd now tnow st)
   = l_households (generateLocals pf rnd now st)"
  by (simp add: generateCurrentData_def Let_def)

lemma statuses_generateCurrentData:
  "statuses (generateCurrentData pf rnd now tnow st) = statuses st"
  by (simp add: statuses_def householdData_generateCurrentData generateLocals_def Let_def
      updateHouseholdConsumption_def split_beta updateHouseholds_status)

lemma perform_statuses:
  "length (statuses (perform pf st c)) = length (statuses st)
   \<and> (\<forall>i < length (statuses st).
        length (statuses (perform pf st c) ! i) = length (statuses st ! i)
        \<and> (\<forall>j < length (statuses st ! i).
             statuses (perform pf st c) ! i ! j = statuses st ! i ! j
             \<or> statuses (perform pf st c) ! i ! j = ''on''
             \<or> statuses (perform pf st c) ! i ! j = ''off''))"
proof (cases c)
  case (Generate rnd now tnow)
  then show ?thesis by (simp add: statuses_generateCurrentData)
next
  case (Toggle h d)
  from statuses_toggleDevice[of st h d] show ?thesis
  proof
    assume "statuses (fst (toggleDevice st h d)) = statuses st"
    with Toggle show ?thesis by simp
  next
    assume "\<exists>i j. i < length (statuses st) \<and> j < length (statuses st ! i)
        \<and> statuses (fst (toggleDevice st h d)) =
            (statuses st)[i := (statuses st ! i)[j := (if statuses st ! i ! j = ''on'' then ''off'' else ''on'')]]"
    then obtain i j where ij: "i < length (statuses st)" "j < length (statuses st ! i)"
      "statuses (fst (toggleDevice st h d)) =
            (statuses st)[i := (statuses st ! i)[j := (if statuses st ! i ! j = ''on'' then ''off'' else ''on'')]]"
      by blast
    with Toggle show ?thesis by (auto simp: nth_list_update)
  qed
qed

lemma performAll_not_auto:
  "i < length (statuses st) \<Longrightarrow> j < length (statuses st ! i) \<Longrightarrow>
   statuses st ! i ! j \<noteq> ''auto'' \<Longrightarrow>
   i < length (statuses (performAll pf st cs)) \<and> j < length (statuses (performAll pf st cs) ! i)
   \<and> statuses (performAll pf st cs) ! i ! j \<noteq> ''auto''"
proof (induction cs arbitrary: st)
  case Nil
  then show ?case by (simp add: performAll_def)
next
  case (Cons c cs)
  from perform_statuses[of pf st c] Cons.prems
  have l: "i < length (statuses (perform pf st c))"
       "j < length (statuses (perform pf st c) ! i)"
    by auto
  from perform_statuses[of pf st c] Cons.prems
  have "statuses (perform pf st c) ! i ! j = statuses st ! i ! j
             \<or> statuses (perform pf st c) ! i ! j = ''on''
             \<or> statuses (perform pf st c) ! i ! j = ''off''"
    by blast
  with Cons.prems have "statuses (perform pf st c) ! i ! j \<noteq> ''auto''" by auto
  from Cons.IH[OF l this] show ?case by (simp add: performAll_def)
qed

lemma households_exampleState:
  "households (householdData exampleState) = initialHouseholds"
  by (simp add: exampleState_def newManager_def)

text \<open>
  C9: \<open>toggleDevice\<close> succeeds exactly when the first household with the given id
  has a device with the given name. Then the new household list is the old one with
  the status of that one device changed, and nothing else of the state changes. When
  it fails the state is returned as it was.
\<close>

theorem toggleDevice_frame:
  assumes "toggleDevice st householdId deviceName = (st', ok)"
  shows "currentData st' = currentData st \<and> historicalData st' = historicalData st
       \<and> alertsData st' = alertsData st \<and> controlsData st' = controlsData st
       \<and> schedules st' = schedules st
       \<and> (\<not> ok \<longrightarrow> st' = st)
       \<and> (ok \<longleftrightarrow> (\<exists>i < length (households (householdData st)).
                    hid (households (householdData st) ! i) = householdId
                  \<and> (\<forall>k<i. hid (households (householdData st) ! k) \<noteq> householdId)
                  \<and> (\<exists>d \<in> set (devices (households (householdData st) ! i)). name d = deviceName)))
       \<and> (ok \<longrightarrow> (\<exists>i j. i < length (households (householdData st))
                  \<and> j < length (devices (households (householdData st) ! i))
                  \<and> hid (households (householdData st) ! i) = householdId
                  \<and> name (devices (households (householdData st) ! i) ! j) = deviceName
                  \<and> households (householdData st') =
                      (households (householdData st))
                        [i := (households (householdData st) ! i)
                           \<lparr>devices := (devices (households (householdData st) ! i))
                              [j := (devices (households (householdData st) ! i) ! j)
                                 \<lparr>status := (if status (devices (households (householdData st) ! i) ! j) = ''on''
                                             then ''off'' else ''on'')\<rparr>]\<rparr>]))"
proof -
  let ?hs = "households (householdData st)"
  show ?thesis
  proof (cases "findIndex (\<lambda>h. hid h = householdId) ?hs")
    case None
    with assms have "st' = st" "\<not> ok" by (auto simp: toggleDevice_def)
    moreover from None have "\<forall>h\<in>set ?hs. hid h \<noteq> householdId" by (simp add: findIndex_None)
    ultimately show ?thesis by auto
  next
    case (Some i)
    note i = Some[unfolded findIndex_Some]
    show ?thesis
    proof (cases "findIndex (\<lambda>d. name d = deviceName) (devices (?hs ! i))")
      case None
      with Some assms have eq: "st' = st" "\<not> ok" by (auto simp: toggleDevice_def Let_def)
      from None have nd: "\<forall>d\<in>set (devices (?hs ! i)). name d \<noteq> deviceName"
        by (simp add: findIndex_None)
      have "\<not> (\<exists>i' < length ?hs. hid (?hs ! i') = householdId
                  \<and> (\<forall>k<i'. hid (?hs ! k) \<noteq> householdId)
                  \<and> (\<exists>d \<in> set (devices (?hs ! i')). name d = deviceName))"
      proof
        assume "\<exists>i' < length ?hs. hid (?hs ! i') = householdId
                  \<and> (\<forall>k<i'. hid (?hs ! k) \<noteq> householdId)
                  \<and> (\<exists>d \<in> set (devices (?hs ! i')). name d = deviceName)"
        then obtain i' where i': "i' < length ?hs" "hid (?hs ! i') = householdId"
            "\<forall>k<i'. hid (?hs ! k) \<noteq> householdId"
            "\<exists>d \<in> set (devices (?hs ! i')). name d = deviceName" by blast
        from i i' have "\<not> i' < i" "\<not> i < i'" by blast+
        then have "i' = i" by simp
        with i' nd show False by blast
      qed
      with eq show ?thesis by simp
    next
      case (Some j)
      note j = Some[unfolded findIndex_Some]
      from assms \<open>findIndex (\<lambda>h. hid h = householdId) ?hs = Some i\<close> Some
      have st': "st' = st\<lparr>householdData := (householdData st)\<lparr>households :=
                      ?hs[i := (?hs ! i)\<lparr>devices := (devices (?hs ! i))[j := toggleStatus (devices (?hs ! i) ! j)]\<rparr>]\<rparr>\<rparr>"
        and ok: "ok" by (auto simp: toggleDevice_def Let_def)
      from j have "\<exists>d \<in> set (devices (?hs ! i)). name d = deviceName"
        using nth_mem by blast
      with i have ex: "\<exists>i < length ?hs. hid (?hs ! i) = householdId
                  \<and> (\<forall>k<i. hid (?hs ! k) \<noteq> householdId)
                  \<and> (\<exists>d \<in> set (devices (?hs ! i)). name d = deviceName)" by blast
      have upd: "\<exists>i j. i < length ?hs \<and> j < length (devices (?hs ! i))
                  \<and> hid (?hs ! i) = householdId
                  \<and> name (devices (?hs ! i) ! j) = deviceName
                  \<and> households (householdData st') =
                      ?hs[i := (?hs ! i)\<lparr>devices := (devices (?hs ! i))
                              [j := (devices (?hs ! i) ! j)
                                 \<lparr>status := (if status (devices (?hs ! i) ! j) = ''on''
                                             then ''off'' else ''on'')\<rparr>]\<rparr>]"
        using i j st' by (intro exI[of _ i] exI[of _ j]) (simp add: toggleStatus_def)
      from st' ok ex upd show ?thesis by simp
    qed
  qed
qed

theorem toggleDevice_frame_witness:
  "toggleDevice exampleState ''house1'' ''HVAC''
     = (fst (toggleDevice exampleState ''house1'' ''HVAC''), True)
   \<and> alertsData (fst (toggleDevice exampleState ''house1'' ''HVAC'')) = alertsData exampleState
   \<and> toggleDevice exampleState ''house9'' ''HVAC'' = (exampleState, False)"
proof -
  have ok: "snd (toggleDevice exampleState ''house1'' ''HVAC'')"
    by (simp add: toggleDevice_def households_exampleState initialHouseholds_def Let_def)
  have nok: "\<not> snd (toggleDevice exampleState ''house9'' ''HVAC'')"
    by (simp add: toggleDevice_def households_exampleState initialHouseholds_def Let_def)
  have e1: "toggleDevice exampleState ''house1'' ''HVAC''
     = (fst (toggleDevice exampleState ''house1'' ''HVAC''),
        snd (toggleDevice exampleState ''house1'' ''HVAC''))"
    by simp
  have e2: "toggleDevice exampleState ''house9'' ''HVAC''
     = (fst (toggleDevice exampleState ''house9'' ''HVAC''),
        snd (toggleDevice exampleState ''house9'' ''HVAC''))"
    by simp
  from toggleDevice_frame[OF e1]
  have a: "alertsData (fst (toggleDevice exampleState ''house1'' ''HVAC''))
           = alertsData exampleState"
    by blast
  from toggleDevice_frame[OF e2] nok
  have b: "fst (toggleDevice exampleState ''house9'' ''HVAC'') = exampleState"
    by blast
  from ok have c: "toggleDevice exampleState ''house1'' ''HVAC''
     = (fst (toggleDevice exampleState ''house1'' ''HVAC''), True)"
    by (simp add: prod_eq_iff)
  from b nok have d: "toggleDevice exampleState ''house9'' ''HVAC'' = (exampleState, False)"
    by (simp add: prod_eq_iff)
  from a c d show ?thesis by blast
qed

text \<open>
  C10: the toggled device is \<open>off\<close> if it was \<open>on\<close> and \<open>on\<close> in every other case, so it is
  never \<open>auto\<close> afterwards; and a device that is not \<open>auto\<close> is not \<open>auto\<close> after any
  sequence of toggles and snapshot generations.
\<close>

theorem toggleDevice_status:
  "(findIndex (\<lambda>h. hid h = householdId) (households (householdData st)) = Some i \<longrightarrow>
    findIndex (\<lambda>d. name d = deviceName) (devices (households (householdData st) ! i)) = Some j \<longrightarrow>
      deviceStatus (fst (toggleDevice st householdId deviceName)) i j
        = (if deviceStatus st i j = ''on'' then ''off'' else ''on'')
      \<and> deviceStatus (fst (toggleDevice st householdId deviceName)) i j \<noteq> ''auto'')
   \<and> (\<forall>i j cs. i < length (households (householdData st)) \<longrightarrow>
         j < length (devices (households (householdData st) ! i)) \<longrightarrow>
         deviceStatus st i j \<noteq> ''auto'' \<longrightarrow>
         deviceStatus (performAll pf st cs) i j \<noteq> ''auto'')"
proof (intro conjI impI allI)
  assume fi: "findIndex (\<lambda>h. hid h = householdId) (households (householdData st)) = Some i"
    and fj: "findIndex (\<lambda>d. name d = deviceName) (devices (households (householdData st) ! i)) = Some j"
  from fi have i: "i < length (households (householdData st))" by (simp add: findIndex_Some)
  from fj have j: "j < length (devices (households (householdData st) ! i))"
    by (simp add: findIndex_Some)
  from fi fj i j
  show eq: "deviceStatus (fst (toggleDevice st householdId deviceName)) i j
        = (if deviceStatus st i j = ''on'' then ''off'' else ''on'')"
    by (simp add: toggleDevice_def Let_def toggleStatus_def deviceStatus_def)
  then show "deviceStatus (fst (toggleDevice st householdId deviceName)) i j \<noteq> ''auto''"
    by simp
next
  fix i j cs
  assume i: "i < length (households (householdData st))"
    and j: "j < length (devices (households (householdData st) ! i))"
    and na: "deviceStatus st i j \<noteq> ''auto''"
  from i j have s: "i < length (statuses st)" "j < length (statuses st ! i)"
    by (simp_all add: statuses_def)
  from i j na have "statuses st ! i ! j \<noteq> ''auto''" by (simp add: statuses_nth)
  from performAll_not_auto[OF s this, of pf cs]
  have r: "i < length (statuses (performAll pf st cs))"
     "j < length (statuses (performAll pf st cs) ! i)"
     "statuses (performAll pf st cs) ! i ! j \<noteq> ''auto''" by simp_all
  from r(1) have i': "i < length (households (householdData (performAll pf st cs)))"
    by (simp add: statuses_def)
  with r(2) have j': "j < length (devices (households (householdData (performAll pf st cs)) ! i))"
    by (simp add: statuses_def)
  from r(3) statuses_nth[OF i' j']
  show "deviceStatus (performAll pf st cs) i j \<noteq> ''auto''" by simp
qed

theorem toggleDevice_status_witness:
  "findIndex (\<lambda>h. hid h = ''house3'') (households (householdData exampleState)) = Some 2
   \<and> findIndex (\<lambda>d. name d = ''Outdoor Lighting'')
        (devices (households (householdData exampleState) ! 2)) = Some 3
   \<and> deviceStatus exampleState 2 3 = ''auto''
   \<and> deviceStatus (fst (toggleDevice exampleState ''house3'' ''Outdoor Lighting'')) 2 3 = ''on''
   \<and> (0::nat) < length (households (householdData exampleState))
   \<and> (0::nat) < length (devices (households (householdData exampleState) ! 0))
   \<and> deviceStatus exampleState 0 0 \<noteq> ''auto''
   \<and> deviceStatus (performAll examplePlatform exampleState
         [Toggle ''house1'' ''HVAC'', Generate (\<lambda>_. 1 / 2) 1793707205000 1793707205000,
          Toggle ''house1'' ''HVAC'']) 0 0 \<noteq> ''auto''"
proof -
  have f1: "findIndex (\<lambda>h. hid h = ''house3'') (households (householdData exampleState)) = Some 2"
    by (simp add: households_exampleState initialHouseholds_def)
  have f2: "findIndex (\<lambda>d. name d = ''Outdoor Lighting'')
        (devices (households (householdData exampleState) ! 2)) = Some 3"
    by (simp add: households_exampleState initialHouseholds_def)
  have a: "deviceStatus exampleState 2 3 = ''auto''"
    by (simp add: deviceStatus_def households_exampleState initialHouseholds_def)
  have h: "(0::nat) < length (households (householdData exampleState))"
     "(0::nat) < length (devices (households (householdData exampleState) ! 0))"
     "deviceStatus exampleState 0 0 \<noteq> ''auto''"
    by (simp_all add: deviceStatus_def households_exampleState initialHouseholds_def)
  note t = toggleDevice_status[of "''house3''" exampleState 2 "''Outdoor Lighting''" 3 examplePlatform]
  from t f1 f2 have "deviceStatus (fst (toggleDevice exampleState ''house3'' ''Outdoor Lighting'')) 2 3
        = (if deviceStatus exampleState 2 3 = ''on'' then ''off'' else ''on'')" by blast
  with a have b: "deviceStatus (fst (toggleDevice exampleState ''house3'' ''Outdoor Lighting'')) 2 3 = ''on''"
    by simp
  from t h have c: "deviceStatus (performAll examplePlatform exampleState
         [Toggle ''house1'' ''HVAC'', Generate (\<lambda>_. 1 / 2) 1793707205000 1793707205000,
          Toggle ''house1'' ''HVAC'']) 0 0 \<noteq> ''auto''" by blast
  from f1 f2 a b h c show ?thesis by blast
qed

subsection \<open>Historical series\<close>

lemma maxPoints_pos: "0 < maxPoints period"
  by (simp add: maxPoints_def)

lemma initLoop_lengths:
  "length (labels (fst (initLoop pf rnd now period iv n c acc))) = length (labels acc) + n
   \<and> length (s_generation (fst (initLoop pf rnd now period iv n c acc)))
       = length (s_generation acc) + n
   \<and> length (s_consumption (fst (initLoop pf rnd now period iv n c acc)))
       = length (s_consumption acc) + n"
proof (induction n arbitrary: c acc)
  case 0
  then show ?case by simp
next
  case (Suc n)
  show ?case
    unfolding initLoop.simps Let_def
    by (simp add: Suc)
qed

lemma initializePeriodData_invariant:
  "points \<le> maxPoints period \<Longrightarrow>
   seriesInvariant period (fst (initializePeriodData pf rnd c now period points iv))"
  using initLoop_lengths[of pf rnd now period iv points c
      "\<lparr>labels = [], s_generation = [], s_consumption = []\<rparr>"]
  by (simp add: initializePeriodData_def seriesInvariant_def)

lemma initializeHistoricalData_invariant:
  "historicalInvariant (initializeHistoricalData pf rnd now)"
  unfolding historicalInvariant_def initializeHistoricalData_def Let_def
  by (simp add: initializePeriodData_invariant maxPoints_def)

lemma window_full:
  assumes "length xs = cap" "0 < cap"
  shows "tl xs @ [x] = drop (length xs + 1 - cap) (xs @ [x])"
proof -
  from assms have "xs \<noteq> []" by auto
  then have "tl xs @ [x] = drop 1 (xs @ [x])" by (cases xs) auto
  with assms show ?thesis by simp
qed

lemma window_room:
  assumes "length xs < cap"
  shows "xs @ [x] = drop (length xs + 1 - cap) (xs @ [x])"
  using assms by simp

lemma window_step:
  assumes "length xs \<le> cap" "0 < cap"
  shows "(if cap \<le> length xs then tl xs else xs) @ [x]
         = drop (length xs + 1 - cap) (xs @ [x])"
proof (cases "cap \<le> length xs")
  case True
  with assms have "length xs = cap" by simp
  from window_full[OF this assms(2)] True show ?thesis by (simp only: if_True)
next
  case False
  then have "length xs < cap" by simp
  from window_room[OF this] False show ?thesis by (simp only: if_False)
qed

lemma addDataPoint_fields:
  "labels (addDataPoint pf period data cur t)
     = (if maxPoints period \<le> length (labels data) then tl (labels data) else labels data)
       @ [formatTimeForPeriod pf t period]"
  "s_generation (addDataPoint pf period data cur t)
     = (if maxPoints period \<le> length (labels data) then tl (s_generation data)
        else s_generation data) @ [gen_total (generation cur)]"
  "s_consumption (addDataPoint pf period data cur t)
     = (if maxPoints period \<le> length (labels data) then tl (s_consumption data)
        else s_consumption data) @ [cons_total (consumption cur)]"
  by (simp_all add: addDataPoint_def Let_def)

lemma addDataPoint_window:
  assumes "seriesInvariant period data"
  shows "labels (addDataPoint pf period data cur t)
           = drop (length (labels data) + 1 - maxPoints period)
               (labels data @ [formatTimeForPeriod pf t period])"
    and "s_generation (addDataPoint pf period data cur t)
           = drop (length (labels data) + 1 - maxPoints period)
               (s_generation data @ [gen_total (generation cur)])"
    and "s_consumption (addDataPoint pf period data cur t)
           = drop (length (labels data) + 1 - maxPoints period)
               (s_consumption data @ [cons_total (consumption cur)])"
proof -
  from assms have l: "length (labels data) \<le> maxPoints period"
    and g: "length (s_generation data) = length (labels data)"
    and c: "length (s_consumption data) = length (labels data)"
    by (simp_all add: seriesInvariant_def)
  from window_step[OF l maxPoints_pos]
  show "labels (addDataPoint pf period data cur t)
           = drop (length (labels data) + 1 - maxPoints period)
               (labels data @ [formatTimeForPeriod pf t period])"
    by (simp only: addDataPoint_fields)
  from l g have "length (s_generation data) \<le> maxPoints period" by simp
  from window_step[OF this maxPoints_pos, of "gen_total (generation cur)"]
  show "s_generation (addDataPoint pf period data cur t)
           = drop (length (labels data) + 1 - maxPoints period)
               (s_generation data @ [gen_total (generation cur)])"
    by (simp only: addDataPoint_fields g)
  from l c have "length (s_consumption data) \<le> maxPoints period" by simp
  from window_step[OF this maxPoints_pos, of "cons_total (consumption cur)"]
  show "s_consumption (addDataPoint pf period data cur t)
           = drop (length (labels data) + 1 - maxPoints period)
               (s_consumption data @ [cons_total (consumption cur)])"
    by (simp only: addDataPoint_fields c)
qed

lemma addDataPoint_invariant:
  assumes "seriesInvariant period data"
  shows "seriesInvariant period (addDataPoint pf period data cur t)"
proof -
  from assms have l: "length (labels data) \<le> maxPoints period"
    "length (s_generation data) = length (labels data)"
    "length (s_consumption data) = length (labels data)"
    by (simp_all add: seriesInvariant_def)
  have "0 < maxPoints period" by (rule maxPoints_pos)
  with l show ?thesis
    unfolding seriesInvariant_def addDataPoint_window[OF assms]
    by auto
qed

lemma addDataPoints_Cons:
  "addDataPoints pf period data (p # ps)
   = addDataPoints pf period (addDataPoint pf period data (fst p) (snd p)) ps"
  by (simp add: addDataPoints_def split_beta)

lemma addDataPoints_invariant:
  "seriesInvariant period data \<Longrightarrow> seriesInvariant period (addDataPoints pf period data ps)"
proof (induction ps arbitrary: data)
  case Nil
  then show ?case by (simp add: addDataPoints_def)
next
  case (Cons p ps)
  from Cons.IH[OF addDataPoint_invariant[OF Cons.prems]]
  show ?case by (simp add: addDataPoints_Cons)
qed

lemma drop_drop_window:
  assumes "length xs = n" "n \<le> cap" "m = n + 1 - (n + 1 - cap)"
  shows "drop (m + k - cap) (drop (n + 1 - cap) (xs @ [x]) @ ys)
         = drop (n + Suc k - cap) (xs @ x # ys)"
proof -
  let ?b = "n + 1 - cap"
  have b: "?b \<le> length (xs @ [x])" using assms by simp
  then have "?b - length (xs @ [x]) = 0" by simp
  with drop_append[of ?b "xs @ [x]" ys]
  have "drop ?b ((xs @ [x]) @ ys) = drop ?b (xs @ [x]) @ ys" by (simp only: drop_0)
  then have e1: "drop ?b (xs @ [x]) @ ys = drop ?b (xs @ x # ys)"
    by (simp only: append_assoc append_Cons append_Nil)
  have e2: "m + k - cap + ?b = n + Suc k - cap"
    using assms by auto
  have "drop (m + k - cap) (drop ?b (xs @ x # ys)) = drop (m + k - cap + ?b) (xs @ x # ys)"
    by (rule drop_drop)
  with e1 e2 show ?thesis by (simp only:)
qed

lemma addDataPoints_window:
  "seriesInvariant period data \<Longrightarrow>
   labels (addDataPoints pf period data ps)
     = drop (length (labels data) + length ps - maxPoints period)
         (labels data @ map (\<lambda>p. formatTimeForPeriod pf (snd p) period) ps)
   \<and> s_generation (addDataPoints pf period data ps)
     = drop (length (labels data) + length ps - maxPoints period)
         (s_generation data @ map (\<lambda>p. gen_total (generation (fst p))) ps)
   \<and> s_consumption (addDataPoints pf period data ps)
     = drop (length (labels data) + length ps - maxPoints period)
         (s_consumption data @ map (\<lambda>p. cons_total (consumption (fst p))) ps)"
proof (induction ps arbitrary: data)
  case Nil
  then show ?case by (simp add: addDataPoints_def seriesInvariant_def)
next
  case (Cons p ps)
  let ?n = "length (labels data)"
  let ?cap = "maxPoints period"
  let ?d = "addDataPoint pf period data (fst p) (snd p)"
  from Cons.prems have l: "?n \<le> ?cap"
    and g: "length (s_generation data) = ?n"
    and c: "length (s_consumption data) = ?n"
    by (simp_all add: seriesInvariant_def)
  note w = addDataPoint_window[OF Cons.prems, of pf "fst p" "snd p"]
  have m: "length (labels ?d) = ?n + 1 - (?n + 1 - ?cap)"
    by (simp add: w(1) del: drop_append)
  note ih = Cons.IH[OF addDataPoint_invariant[OF Cons.prems, of pf "fst p" "snd p"]]
  have 1: "labels (addDataPoints pf period data (p # ps))
     = drop (?n + length (p # ps) - ?cap)
         (labels data @ map (\<lambda>p. formatTimeForPeriod pf (snd p) period) (p # ps))"
    using ih drop_drop_window[OF refl l m, of "length ps" "formatTimeForPeriod pf (snd p) period"
        "map (\<lambda>p. formatTimeForPeriod pf (snd p) period) ps"]
    by (simp only: addDataPoints_Cons w list.map length_Cons)
  have 2: "s_generation (addDataPoints pf period data (p # ps))
     = drop (?n + length (p # ps) - ?cap)
         (s_generation data @ map (\<lambda>p. gen_total (generation (fst p))) (p # ps))"
    using ih drop_drop_window[OF g l m, of "length ps" "gen_total (generation (fst p))"
        "map (\<lambda>p. gen_total (generation (fst p))) ps"]
    by (simp only: addDataPoints_Cons w list.map length_Cons)
  have 3: "s_consumption (addDataPoints pf period data (p # ps))
     = drop (?n + length (p # ps) - ?cap)
         (s_consumption data @ map (\<lambda>p. cons_total (consumption (fst p))) (p # ps))"
    using ih drop_drop_window[OF c l m, of "length ps" "cons_total (consumption (fst p))"
        "map (\<lambda>p. cons_total (consumption (fst p))) ps"]
    by (simp only: addDataPoints_Cons w list.map length_Cons)
  from 1 2 3 show ?case by blast
qed

lemma historicalData_checkAlerts [simp]:
  "historicalData (checkAlerts pf tnow st) = historicalData st"
  by (simp add: checkAlerts_def)

lemma updateHistoricalData_invariant:
  assumes "historicalInvariant (historicalData st)"
  shows "historicalInvariant (historicalData (updateHistoricalData pf st))"
proof -
  from assms have a: "seriesInvariant ''24h'' (h24 (historicalData st))"
    "seriesInvariant ''7d'' (h7d (historicalData st))"
    "seriesInvariant ''30d'' (h30d (historicalData st))"
    by (simp_all add: historicalInvariant_def)
  show ?thesis
    unfolding updateHistoricalData_def Let_def historicalInvariant_def
    using a by (simp add: addDataPoint_invariant)
qed

lemma historicalData_generateCurrentData:
  "historicalInvariant (historicalData st) \<Longrightarrow>
   historicalInvariant (historicalData (generateCurrentData pf rnd now tnow st))"
  unfolding generateCurrentData_def Let_def
  by (simp add: updateHistoricalData_invariant)

lemma historicalData_toggleDevice [simp]:
  "historicalData (fst (toggleDevice st h d)) = historicalData st"
  by (cases rule: toggleDevice_cases[of st h d]) simp_all

lemma perform_invariant:
  "historicalInvariant (historicalData st) \<Longrightarrow>
   historicalInvariant (historicalData (perform pf st c))"
  by (cases c) (simp_all add: historicalData_generateCurrentData)

lemma performAll_invariant:
  "historicalInvariant (historicalData st) \<Longrightarrow>
   historicalInvariant (historicalData (performAll pf st cs))"
proof (induction cs arbitrary: st)
  case Nil
  then show ?case by (simp add: performAll_def)
next
  case (Cons c cs)
  from Cons.IH[OF perform_invariant[OF Cons.prems]]
  show ?case by (simp add: performAll_def)
qed

lemma showNat_digit: "n < 10 \<Longrightarrow> showNat n = [''0123456789'' ! n]"
  by (subst showNat.simps) simp

text \<open>
  C6: the series of the three periods are capped at 48, 168 and 720 points. After
  the construction and after any sequence of calls, the three arrays of each series
  have the same length, at most the cap of the period. Any sequence of appends to such
  a series keeps this and leaves the most recent points in the order of their
  arrival: the arrays are the old ones followed by the new values, without the oldest
  elements beyond the cap. An append at capacity drops exactly the first element of
  each array.
\<close>

theorem historical_series_bounded_fifo:
  "maxPoints ''24h'' = 48 \<and> maxPoints ''7d'' = 168 \<and> maxPoints ''30d'' = 720
   \<and> historicalInvariant (historicalData (newManager pf rnd now))
   \<and> historicalInvariant (historicalData (performAll pf (newManager pf rnd now) cs))
   \<and> (seriesInvariant period data \<longrightarrow>
        seriesInvariant period (addDataPoints pf period data ps)
        \<and> labels (addDataPoints pf period data ps)
            = drop (length (labels data) + length ps - maxPoints period)
                (labels data @ map (\<lambda>p. formatTimeForPeriod pf (snd p) period) ps)
        \<and> s_generation (addDataPoints pf period data ps)
            = drop (length (labels data) + length ps - maxPoints period)
                (s_generation data @ map (\<lambda>p. gen_total (generation (fst p))) ps)
        \<and> s_consumption (addDataPoints pf period data ps)
            = drop (length (labels data) + length ps - maxPoints period)
                (s_consumption data @ map (\<lambda>p. cons_total (consumption (fst p))) ps)
        \<and> (length (labels data) = maxPoints period \<longrightarrow>
             labels (addDataPoint pf period data cur t)
               = tl (labels data) @ [formatTimeForPeriod pf t period]
           \<and> s_generation (addDataPoint pf period data cur t)
               = tl (s_generation data) @ [gen_total (generation cur)]
           \<and> s_consumption (addDataPoint pf period data cur t)
               = tl (s_consumption data) @ [cons_total (consumption cur)]))"
proof -
  have caps: "maxPoints ''24h'' = 48 \<and> maxPoints ''7d'' = 168 \<and> maxPoints ''30d'' = 720"
    by (simp add: maxPoints_def)
  have init: "historicalInvariant (historicalData (newManager pf rnd now))"
    by (simp add: newManager_def initializeHistoricalData_invariant)
  note run = performAll_invariant[OF init, of pf cs]
  have step: "seriesInvariant period data \<longrightarrow>
        seriesInvariant period (addDataPoints pf period data ps)
        \<and> labels (addDataPoints pf period data ps)
            = drop (length (labels data) + length ps - maxPoints period)
                (labels data @ map (\<lambda>p. formatTimeForPeriod pf (snd p) period) ps)
        \<and> s_generation (addDataPoints pf period data ps)
            = drop (length (labels data) + length ps - maxPoints period)
                (s_generation data @ map (\<lambda>p. gen_total (generation (fst p))) ps)
        \<and> s_consumption (addDataPoints pf period data ps)
            = drop (length (labels data) + length ps - maxPoints period)
                (s_consumption data @ map (\<lambda>p. cons_total (consumption (fst p))) ps)
        \<and> (length (labels data) = maxPoints period \<longrightarrow>
             labels (addDataPoint pf period data cur t)
               = tl (labels data) @ [formatTimeForPeriod pf t period]
           \<and> s_generation (addDataPoint pf period data cur t)
               = tl (s_generation data) @ [gen_total (generation cur)]
           \<and> s_consumption (addDataPoint pf period data cur t)
               = tl (s_consumption data) @ [cons_total (consumption cur)])"
  proof
    assume inv: "seriesInvariant period data"
    have full: "length (labels data) = maxPoints period \<longrightarrow>
             labels (addDataPoint pf period data cur t)
               = tl (labels data) @ [formatTimeForPeriod pf t period]
           \<and> s_generation (addDataPoint pf period data cur t)
               = tl (s_generation data) @ [gen_total (generation cur)]
           \<and> s_consumption (addDataPoint pf period data cur t)
               = tl (s_consumption data) @ [cons_total (consumption cur)]"
      by (simp add: addDataPoint_fields)
    from addDataPoints_invariant[OF inv, of pf ps] addDataPoints_window[OF inv, of pf ps] full
    show "seriesInvariant period (addDataPoints pf period data ps)
        \<and> labels (addDataPoints pf period data ps)
            = drop (length (labels data) + length ps - maxPoints period)
                (labels data @ map (\<lambda>p. formatTimeForPeriod pf (snd p) period) ps)
        \<and> s_generation (addDataPoints pf period data ps)
            = drop (length (labels data) + length ps - maxPoints period)
                (s_generation data @ map (\<lambda>p. gen_total (generation (fst p))) ps)
        \<and> s_consumption (addDataPoints pf period data ps)
            = drop (length (labels data) + length ps - maxPoints period)
                (s_consumption data @ map (\<lambda>p. cons_total (consumption (fst p))) ps)
        \<and> (length (labels data) = maxPoints period \<longrightarrow>
             labels (addDataPoint pf period data cur t)
               = tl (labels data) @ [formatTimeForPeriod pf t period]
           \<and> s_generation (addDataPoint pf period data cur t)
               = tl (s_generation data) @ [gen_total (generation cur)]
           \<and> s_consumption (addDataPoint pf period data cur t)
               = tl (s_consumption data) @ [cons_total (consumption cur)])"
      by blast
  qed
  from caps init run step show ?thesis by blast
qed

theorem historical_series_bounded_fifo_witness:
  "seriesInvariant ''24h''
     \<lparr>labels = replicate 48 ''11:30'', s_generation = replicate 48 5,
      s_consumption = replicate 48 4\<rparr>
   \<and> length (replicate 48 ''11:30'') = maxPoints ''24h''
   \<and> labels (addDataPoint examplePlatform ''24h''
        \<lparr>labels = replicate 48 ''11:30'', s_generation = replicate 48 5,
         s_consumption = replicate 48 4\<rparr> (currentData exampleState) 1793707205000)
      = replicate 47 ''11:30'' @ [''12:00'']
   \<and> length (labels (addDataPoints examplePlatform ''24h''
        \<lparr>labels = replicate 48 ''11:30'', s_generation = replicate 48 5,
         s_consumption = replicate 48 4\<rparr>
        [(currentData exampleState, 1793707205000), (currentData exampleState, 1793709005000)]))
      \<le> 48"
proof -
  let ?d = "\<lparr>labels = replicate 48 ''11:30'', s_generation = replicate 48 (5::real),
      s_consumption = replicate 48 (4::real)\<rparr>"
  have inv: "seriesInvariant ''24h'' ?d" by (simp add: seriesInvariant_def maxPoints_def)
  have full: "length (labels ?d) = maxPoints ''24h''" by (simp add: maxPoints_def)
  have lab: "formatTimeForPeriod examplePlatform 1793707205000 ''24h'' = ''12:00''"
    unfolding formatTimeForPeriod_def examplePlatform_def twoDigits_def
    by (simp add: showNat.simps[of 12] showNat_digit)
  have tl: "tl (replicate 48 ''11:30'') = replicate 47 ''11:30''"
    by (simp add: tl_replicate)
  note t = historical_series_bounded_fifo[of examplePlatform "\<lambda>_. 1 / 2" 1793707200000 "[]"
      "''24h''" ?d "[(currentData exampleState, 1793707205000), (currentData exampleState, 1793709005000)]"
      "currentData exampleState" 1793707205000]
  from t inv full have a: "labels (addDataPoint examplePlatform ''24h'' ?d (currentData exampleState) 1793707205000)
      = tl (labels ?d) @ [formatTimeForPeriod examplePlatform 1793707205000 ''24h'']"
    by blast
  from t inv have "seriesInvariant ''24h'' (addDataPoints examplePlatform ''24h'' ?d
        [(currentData exampleState, 1793707205000), (currentData exampleState, 1793709005000)])"
    by blast
  then have b: "length (labels (addDataPoints examplePlatform ''24h'' ?d
        [(currentData exampleState, 1793707205000), (currentData exampleState, 1793709005000)])) \<le> 48"
    by (simp add: seriesInvariant_def maxPoints_def)
  from a lab tl have c: "labels (addDataPoint examplePlatform ''24h'' ?d (currentData exampleState) 1793707205000)
      = replicate 47 ''11:30'' @ [''12:00'']" by simp
  from inv full b c show ?thesis by simp
qed

subsection \<open>The snapshot\<close>

lemma js_round_mono: "x \<le> y \<Longrightarrow> js_round x \<le> js_round y"
  by (simp add: js_round_def floor_mono)

lemma js_round_int: "js_round (real_of_int k) = real_of_int k"
proof -
  have "\<lfloor>real_of_int k + 1 / 2\<rfloor> = k" by (rule floor_unique) simp_all
  then show ?thesis by (simp add: js_round_def)
qed

text \<open>The three properties of the rounding to a double.\<close>

lemma fl_mono: "x \<le> y \<Longrightarrow> fl pf x \<le> fl pf y"
  using Rep_rounding[of "toDouble pf"] by (simp add: fl_def)

lemma fl_int: "\<bar>k\<bar> \<le> 2 ^ 53 \<Longrightarrow> fl pf (real_of_int k) = real_of_int k"
  using Rep_rounding[of "toDouble pf"] by (simp add: fl_def)

lemma fl_idem: "fl pf (fl pf x) = fl pf x"
  using Rep_rounding[of "toDouble pf"] by (simp add: fl_def)

lemma fl_zero [simp]: "fl pf 0 = 0"
  using fl_int[of 0 pf] by simp

lemma fl_lower:
  assumes k: "\<bar>k\<bar> \<le> 2 ^ 53" and x: "real_of_int k \<le> x"
  shows "real_of_int k \<le> fl pf x"
  using fl_mono[OF x, of pf] fl_int[OF k, of pf] by simp

lemma fl_upper:
  assumes k: "\<bar>k\<bar> \<le> 2 ^ 53" and x: "x \<le> real_of_int k"
  shows "fl pf x \<le> real_of_int k"
  using fl_mono[OF x, of pf] fl_int[OF k, of pf] by simp

lemma fl_nonneg: "0 \<le> x \<Longrightarrow> 0 \<le> fl pf x"
  using fl_lower[of 0 x pf] by simp

lemma fl_nonpos: "x \<le> 0 \<Longrightarrow> fl pf x \<le> 0"
  using fl_upper[of 0 x pf] by simp

text \<open>The range of \<open>a + Math.random() * b\<close> for small natural numbers \<open>a\<close> and \<open>b\<close>.\<close>

lemma affine_range:
  assumes r: "0 \<le> r" "r \<le> 1"
      and a: "0 \<le> a" and b: "0 \<le> b" and ab: "a + b \<le> 2 ^ 53"
  shows "real_of_int a \<le> fadd pf (real_of_int a) (fmul pf r (real_of_int b))"
    and "fadd pf (real_of_int a) (fmul pf r (real_of_int b)) \<le> real_of_int (a + b)"
proof -
  let ?y = "fmul pf r (real_of_int b)"
  from a b ab have kb: "\<bar>b\<bar> \<le> 2 ^ 53" and ka: "\<bar>a\<bar> \<le> 2 ^ 53" and kab: "\<bar>a + b\<bar> \<le> 2 ^ 53"
    by simp_all
  from r(1) b have "0 \<le> r * real_of_int b" by simp
  from fl_nonneg[OF this] have y0: "0 \<le> ?y" by (simp add: fmul_def)
  from r(2) b have "r * real_of_int b \<le> 1 * real_of_int b" by (intro mult_right_mono) simp_all
  then have "r * real_of_int b \<le> real_of_int b" by simp
  from fl_upper[OF kb this] have y1: "?y \<le> real_of_int b" by (simp add: fmul_def)
  from y0 have "real_of_int a \<le> real_of_int a + ?y" by simp
  from fl_lower[OF ka this]
  show "real_of_int a \<le> fadd pf (real_of_int a) ?y" by (simp add: fadd_def)
  from y1 have "real_of_int a + ?y \<le> real_of_int (a + b)" by simp
  from fl_upper[OF kab this]
  show "fadd pf (real_of_int a) ?y \<le> real_of_int (a + b)" by (simp add: fadd_def)
qed

text \<open>
  Rounding to 2 decimals keeps a bound that is an integer, as long as a hundred times
  the bound is an integer that is a double.
\<close>

lemma round2_lower:
  assumes k: "\<bar>k * 100\<bar> \<le> 2 ^ 53" and x: "real_of_int k \<le> x"
  shows "real_of_int k \<le> round2 pf x"
proof -
  from k have k1: "\<bar>k\<bar> \<le> 2 ^ 53" by simp
  from x have "real_of_int (k * 100) \<le> x * 100" by simp
  from fl_lower[OF k this]
  have "real_of_int (k * 100) \<le> fmul pf x 100" by (simp add: fmul_def)
  from js_round_mono[OF this]
  have "real_of_int (k * 100) \<le> js_round (fmul pf x 100)" by (simp only: js_round_int)
  then have "real_of_int k \<le> js_round (fmul pf x 100) / 100" by simp
  from fl_lower[OF k1 this]
  show ?thesis by (simp add: round2_def fdiv_def)
qed

lemma round2_upper:
  assumes k: "\<bar>k * 100\<bar> \<le> 2 ^ 53" and x: "x \<le> real_of_int k"
  shows "round2 pf x \<le> real_of_int k"
proof -
  from k have k1: "\<bar>k\<bar> \<le> 2 ^ 53" by simp
  from x have "x * 100 \<le> real_of_int (k * 100)" by simp
  from fl_upper[OF k this]
  have "fmul pf x 100 \<le> real_of_int (k * 100)" by (simp add: fmul_def)
  from js_round_mono[OF this]
  have "js_round (fmul pf x 100) \<le> real_of_int (k * 100)" by (simp only: js_round_int)
  then have "js_round (fmul pf x 100) / 100 \<le> real_of_int k" by simp
  from fl_upper[OF k1 this]
  show ?thesis by (simp add: round2_def fdiv_def)
qed

text \<open>The arithmetic of the example browser is exact.\<close>

lemma Rep_exact: "Rep_rounding exact = (\<lambda>x. x)"
  by (simp add: exact_def Abs_rounding_inverse)

lemma fl_example [simp]: "fl examplePlatform x = x"
  by (simp add: fl_def examplePlatform_def Rep_exact)

lemma mathSin_example [simp]: "mathSin examplePlatform = sin"
  by (simp add: examplePlatform_def)

lemma mathPi_example [simp]: "mathPi examplePlatform = pi"
  by (simp add: mathPi_def)

lemma round2_example: "round2 examplePlatform x = js_round (x * 100) / 100"
  by (simp add: round2_def fmul_def fdiv_def)

lemma js_round_range:
  assumes "0 \<le> x" "x \<le> 100"
  shows "0 \<le> js_round x \<and> js_round x \<le> 100"
proof -
  have "(0::int) \<le> \<lfloor>x + 1 / 2\<rfloor>" using assms by (simp add: le_floor_iff)
  moreover have "\<lfloor>x + 1 / 2\<rfloor> \<le> (100::int)"
  proof -
    have "x + 1 / 2 < 101" using assms by simp
    then have "\<lfloor>x + 1 / 2\<rfloor> < (101::int)" by (simp add: floor_less_iff)
    then show ?thesis by simp
  qed
  ultimately show ?thesis by (simp add: js_round_def)
qed

lemma batteryPercentage_range:
  assumes "0 \<le> percentage (battery (currentData st))"
      and "percentage (battery (currentData st)) \<le> 100"
  shows "0 \<le> l_batteryPercentage (generateLocals pf rnd now st)
       \<and> l_batteryPercentage (generateLocals pf rnd now st) \<le> 100"
proof -
  have upd: "0 \<le> (if n > 0 then min 100 (fadd pf b (fmul pf n (fl pf 0.1)))
                  else if n < 0 then max 0 (fadd pf b (fmul pf n (fl pf 0.1))) else b)
      \<and> (if n > 0 then min 100 (fadd pf b (fmul pf n (fl pf 0.1)))
          else if n < 0 then max 0 (fadd pf b (fmul pf n (fl pf 0.1))) else b) \<le> 100"
    if b: "0 \<le> b" "b \<le> 100" for b n :: real
  proof -
    have t: "0 \<le> fl pf 0.1" by (rule fl_nonneg) simp
    consider "n > 0" | "n < 0" | "n = 0" by linarith
    then show ?thesis
    proof cases
      case 1
      with t have "0 \<le> n * fl pf 0.1" by simp
      from fl_nonneg[OF this] have "0 \<le> fmul pf n (fl pf 0.1)" by (simp add: fmul_def)
      with b(1) have "0 \<le> b + fmul pf n (fl pf 0.1)" by simp
      from fl_nonneg[OF this] have "0 \<le> fadd pf b (fmul pf n (fl pf 0.1))"
        by (simp add: fadd_def)
      with 1 show ?thesis by simp
    next
      case 2
      with t have "n * fl pf 0.1 \<le> 0" by (simp add: mult_le_0_iff)
      from fl_nonpos[OF this] have "fmul pf n (fl pf 0.1) \<le> 0" by (simp add: fmul_def)
      with b(2) have "b + fmul pf n (fl pf 0.1) \<le> real_of_int 100" by simp
      from fl_upper[OF _ this] have "fadd pf b (fmul pf n (fl pf 0.1)) \<le> 100"
        by (simp add: fadd_def)
      with 2 show ?thesis by simp
    next
      case 3
      with b show ?thesis by simp
    qed
  qed
  have eq: "l_batteryPercentage (generateLocals pf rnd now st)
     = (if l_netEnergy (generateLocals pf rnd now st) > 0
        then min 100 (fadd pf (percentage (battery (currentData st)))
                        (fmul pf (l_netEnergy (generateLocals pf rnd now st)) (fl pf 0.1)))
        else if l_netEnergy (generateLocals pf rnd now st) < 0
        then max 0 (fadd pf (percentage (battery (currentData st)))
                      (fmul pf (l_netEnergy (generateLocals pf rnd now st)) (fl pf 0.1)))
        else percentage (battery (currentData st)))"
    unfolding generateLocals_def Let_def by simp
  from upd[OF assms, of "l_netEnergy (generateLocals pf rnd now st)"]
  show ?thesis by (simp only: eq)
qed

lemma currentData_checkAlerts [simp]:
  "currentData (checkAlerts pf tnow st) = currentData st"
  by (simp add: checkAlerts_def)

lemma currentData_updateHistoricalData [simp]:
  "currentData (updateHistoricalData pf st) = currentData st"
  by (simp add: updateHistoricalData_def Let_def)

lemma percentage_generateCurrentData:
  "percentage (battery (currentData (generateCurrentData pf rnd now tnow st)))
   = js_round (l_batteryPercentage (generateLocals pf rnd now st))"
  unfolding generateCurrentData_def Let_def by simp

lemma currentData_toggleDevice [simp]:
  "currentData (fst (toggleDevice st h d)) = currentData st"
  by (cases rule: toggleDevice_cases[of st h d]) simp_all

lemma perform_percentage:
  assumes "0 \<le> percentage (battery (currentData st))"
      and "percentage (battery (currentData st)) \<le> 100"
  shows "0 \<le> percentage (battery (currentData (perform pf st c)))
       \<and> percentage (battery (currentData (perform pf st c))) \<le> 100"
proof (cases c)
  case (Generate rnd now tnow)
  from batteryPercentage_range[OF assms, of pf rnd now]
  have "0 \<le> js_round (l_batteryPercentage (generateLocals pf rnd now st))
      \<and> js_round (l_batteryPercentage (generateLocals pf rnd now st)) \<le> 100"
    using js_round_range by blast
  with Generate show ?thesis by (simp add: percentage_generateCurrentData)
next
  case (Toggle h d)
  with assms show ?thesis by simp
qed

lemma performAll_percentage:
  "0 \<le> percentage (battery (currentData st)) \<Longrightarrow>
   percentage (battery (currentData st)) \<le> 100 \<Longrightarrow>
   0 \<le> percentage (battery (currentData (performAll pf st cs)))
   \<and> percentage (battery (currentData (performAll pf st cs))) \<le> 100"
proof (induction cs arbitrary: st)
  case Nil
  then show ?case by (simp add: performAll_def)
next
  case (Cons c cs)
  from perform_percentage[OF Cons.prems, of pf c]
  have "0 \<le> percentage (battery (currentData (perform pf st c)))"
       "percentage (battery (currentData (perform pf st c))) \<le> 100" by simp_all
  from Cons.IH[OF this] show ?case by (simp add: performAll_def)
qed

lemma percentage_exampleState: "percentage (battery (currentData exampleState)) = 75"
  by (simp add: exampleState_def newManager_def)

text \<open>
  C7: if the battery percentage of the state lies between 0 and 100, so does the
  percentage stored by a snapshot generation, whatever the random draws, the clock
  and the households are, and so does the percentage after any sequence of calls. The
  constructed manager starts at 75, so its percentage always lies between 0 and 100.
\<close>

theorem battery_percentage_clamped:
  "(0 \<le> percentage (battery (currentData st)) \<and> percentage (battery (currentData st)) \<le> 100
     \<longrightarrow> 0 \<le> percentage (battery (currentData (generateCurrentData pf rnd now tnow st)))
        \<and> percentage (battery (currentData (generateCurrentData pf rnd now tnow st))) \<le> 100
        \<and> 0 \<le> percentage (battery (currentData (performAll pf st cs)))
        \<and> percentage (battery (currentData (performAll pf st cs))) \<le> 100)
   \<and> 0 \<le> percentage (battery (currentData (performAll pf (newManager pf rnd0 now0) cs)))
   \<and> percentage (battery (currentData (performAll pf (newManager pf rnd0 now0) cs))) \<le> 100"
proof -
  have init: "0 \<le> percentage (battery (currentData (newManager pf rnd0 now0)))"
    "percentage (battery (currentData (newManager pf rnd0 now0))) \<le> 100"
    by (simp_all add: newManager_def)
  have step: "0 \<le> percentage (battery (currentData st)) \<and> percentage (battery (currentData st)) \<le> 100
     \<longrightarrow> 0 \<le> percentage (battery (currentData (generateCurrentData pf rnd now tnow st)))
        \<and> percentage (battery (currentData (generateCurrentData pf rnd now tnow st))) \<le> 100
        \<and> 0 \<le> percentage (battery (currentData (performAll pf st cs)))
        \<and> percentage (battery (currentData (performAll pf st cs))) \<le> 100"
  proof
    assume a: "0 \<le> percentage (battery (currentData st)) \<and> percentage (battery (currentData st)) \<le> 100"
    then have a1: "0 \<le> percentage (battery (currentData st))"
      and a2: "percentage (battery (currentData st)) \<le> 100" by simp_all
    from perform_percentage[OF a1 a2, of pf "Generate rnd now tnow"]
      performAll_percentage[OF a1 a2, of pf cs]
    show "0 \<le> percentage (battery (currentData (generateCurrentData pf rnd now tnow st)))
        \<and> percentage (battery (currentData (generateCurrentData pf rnd now tnow st))) \<le> 100
        \<and> 0 \<le> percentage (battery (currentData (performAll pf st cs)))
        \<and> percentage (battery (currentData (performAll pf st cs))) \<le> 100"
      by simp
  qed
  from step performAll_percentage[OF init, of pf cs] show ?thesis by blast
qed

theorem battery_percentage_clamped_witness:
  "0 \<le> percentage (battery (currentData exampleState))
   \<and> percentage (battery (currentData exampleState)) \<le> 100
   \<and> 0 \<le> percentage (battery (currentData
        (generateCurrentData examplePlatform (\<lambda>_. 1 / 2) 1793707205000 1793707205000 exampleState)))
   \<and> percentage (battery (currentData
        (generateCurrentData examplePlatform (\<lambda>_. 1 / 2) 1793707205000 1793707205000 exampleState))) \<le> 100"
  using battery_percentage_clamped[of exampleState examplePlatform "\<lambda>_. 1 / 2"
      1793707205000 1793707205000 "[]" "\<lambda>_. 1 / 2" 1793707200000]
  by (simp add: percentage_exampleState)

lemma currentData_generateCurrentData:
  "currentData (generateCurrentData pf rnd now tnow st) =
     (let L = generateLocals pf rnd now st in
      \<lparr>timestamp = now,
       generation = \<lparr>solar = round2 pf (l_solar L), wind = round2 pf (l_wind L),
                      gen_total = round2 pf (l_totalGeneration L)\<rparr>,
       consumption = \<lparr>cons_households = round2 pf (l_totalConsumption L),
                       cons_total = round2 pf (l_totalConsumption L)\<rparr>,
       battery = \<lparr>percentage = js_round (l_batteryPercentage L),
                   health = l_batteryHealth L,
                   voltage = round1 pf (fadd pf 48 (fmul pf (fdiv pf (l_batteryPercentage L) 100) 6)),
                   temperature = round1 pf (fadd pf 25 (fmul pf (rnd (next_draw L)) 10))\<rparr>,
       grid = \<lparr>grid_status = l_gridStatus L, load = js_round (l_gridLoad L)\<rparr>,
       dailySummary =
         \<lparr>totalGenerated =
            round2 pf (fadd pf (totalGenerated (dailySummary (currentData st)))
               (fdiv pf (l_totalGeneration L) 48)),
          totalConsumed =
            round2 pf (fadd pf (totalConsumed (dailySummary (currentData st)))
               (fdiv pf (l_totalConsumption L) 48)),
          efficiency = js_round (l_efficiency L)\<rparr>\<rparr>)"
  unfolding generateCurrentData_def Let_def by simp

lemma hour_midnight: "getHours examplePlatform 1793750400000 = 0"
  unfolding examplePlatform_def by simp

lemma households_exampleStateAt:
  "households (householdData (exampleStateAt p)) = initialHouseholds"
  by (simp add: exampleStateAt_def exampleState_def newManager_def)

lemma js_round_lt: "js_round x < real_of_int k \<Longrightarrow> x < real_of_int k"
proof -
  assume "js_round x < real_of_int k"
  then have "\<lfloor>x + 1 / 2\<rfloor> < k" by (simp add: js_round_def)
  then have "x + 1 / 2 < real_of_int k" by (simp add: floor_less_iff)
  then show ?thesis by simp
qed

lemma js_round_gt: "real_of_int k < js_round x \<Longrightarrow> real_of_int k \<le> x"
proof -
  assume "real_of_int k < js_round x"
  then have "k < \<lfloor>x + 1 / 2\<rfloor>" by (simp add: js_round_def)
  then have "k + 1 \<le> \<lfloor>x + 1 / 2\<rfloor>" by simp
  then have "real_of_int (k + 1) \<le> x + 1 / 2" by (simp only: le_floor_iff)
  then show ?thesis by simp
qed

lemma locals_health:
  "l_batteryHealth (generateLocals pf rnd now st) =
     (if l_batteryPercentage (generateLocals pf rnd now st) < 10 then ''Critical''
      else if l_batteryPercentage (generateLocals pf rnd now st) < 30 then ''Warning''
      else ''Good'')"
  unfolding generateLocals_def Let_def by simp

lemma locals_gridStatus:
  "l_gridStatus (generateLocals pf rnd now st) =
     (if l_batteryPercentage (generateLocals pf rnd now st)
           < batteryDischargeLimit (energyLimits (controlsData st))
         \<or> l_totalConsumption (generateLocals pf rnd now st)
           > fadd pf (l_totalGeneration (generateLocals pf rnd now st)) 2
      then ''ON'' else ''OFF'')"
  unfolding generateLocals_def Let_def by simp

lemma locals_gridLoad:
  "l_gridLoad (generateLocals pf rnd now st) =
     (if l_gridStatus (generateLocals pf rnd now st) = ''ON''
      then min 100 (fmul pf \<bar>l_netEnergy (generateLocals pf rnd now st)\<bar> 10) else 0)"
  unfolding generateLocals_def Let_def by simp

lemma locals_solar:
  "l_solar (generateLocals pf rnd now st) =
     (if getHours pf now \<ge> 6 \<and> getHours pf now \<le> 18
      then fmul pf (mathSin pf (fmul pf (fdiv pf (real_of_int (getHours pf now - 6)) 12)
                                   (mathPi pf)))
             (fadd pf 8 (fmul pf (rnd 0) 4))
      else 0)"
  unfolding generateLocals_def Let_def by simp

lemma locals_wind:
  "l_wind (generateLocals pf rnd now st) =
     fadd pf 3
       (fmul pf (rnd (if getHours pf now \<ge> 6 \<and> getHours pf now \<le> 18 then Suc 0 else 0)) 6)"
  unfolding generateLocals_def Let_def by simp

lemma locals_totalGeneration:
  "l_totalGeneration (generateLocals pf rnd now st)
   = fadd pf (l_solar (generateLocals pf rnd now st)) (l_wind (generateLocals pf rnd now st))"
  unfolding generateLocals_def Let_def by simp

lemma locals_netEnergy:
  "l_netEnergy (generateLocals pf rnd now st)
   = fsub pf (l_totalGeneration (generateLocals pf rnd now st))
       (l_totalConsumption (generateLocals pf rnd now st))"
  unfolding generateLocals_def Let_def by simp

lemma locals_batteryPercentage:
  "l_batteryPercentage (generateLocals pf rnd now st)
     = (if l_netEnergy (generateLocals pf rnd now st) > 0
        then min 100 (fadd pf (percentage (battery (currentData st)))
                        (fmul pf (l_netEnergy (generateLocals pf rnd now st)) (fl pf 0.1)))
        else if l_netEnergy (generateLocals pf rnd now st) < 0
        then max 0 (fadd pf (percentage (battery (currentData st)))
                      (fmul pf (l_netEnergy (generateLocals pf rnd now st)) (fl pf 0.1)))
        else percentage (battery (currentData st)))"
  unfolding generateLocals_def Let_def by simp

lemma locals_totalConsumption:
  "l_totalConsumption (generateLocals pf rnd now st)
   = getTotalHouseholdConsumption pf
       (fst (updateHouseholdConsumption pf rnd
              (Suc (if getHours pf now \<ge> 6 \<and> getHours pf now \<le> 18 then Suc 0 else 0))
              (getHours pf now) (getDay pf now) (householdData st)))"
  unfolding generateLocals_def Let_def by simp

text \<open>The angle \<open>((hour - 6) / 12) * Math.PI\<close> lies between 0 and \<open>Math.PI\<close>.\<close>

lemma solar_angle_range:
  assumes "6 \<le> hour" "hour \<le> 18"
  shows "0 \<le> fmul pf (fdiv pf (real_of_int (hour - 6)) 12) (mathPi pf)"
    and "fmul pf (fdiv pf (real_of_int (hour - 6)) 12) (mathPi pf) \<le> mathPi pf"
proof -
  let ?q = "fdiv pf (real_of_int (hour - 6)) 12"
  from assms have "0 \<le> real_of_int (hour - 6) / 12" by simp
  from fl_nonneg[OF this] have q0: "0 \<le> ?q" by (simp add: fdiv_def)
  from assms have "real_of_int (hour - 6) / 12 \<le> real_of_int 1" by simp
  from fl_upper[OF _ this] have q1: "?q \<le> 1" by (simp add: fdiv_def)
  have p0: "0 \<le> mathPi pf" unfolding mathPi_def by (rule fl_nonneg) simp
  from q0 p0 have "0 \<le> ?q * mathPi pf" by simp
  from fl_nonneg[OF this] show "0 \<le> fmul pf ?q (mathPi pf)" by (simp add: fmul_def)
  from q1 p0 have "?q * mathPi pf \<le> 1 * mathPi pf" by (intro mult_right_mono)
  then have "?q * mathPi pf \<le> mathPi pf" by simp
  from fl_mono[OF this, of pf] show "fmul pf ?q (mathPi pf) \<le> mathPi pf"
    by (simp add: fmul_def mathPi_def fl_idem)
qed

lemma solar_range:
  assumes sn: "\<forall>x. 0 \<le> x \<and> x \<le> mathPi pf \<longrightarrow> 0 \<le> mathSin pf x \<and> mathSin pf x \<le> 1"
      and r: "0 \<le> rnd 0" "rnd 0 < 1"
  shows "0 \<le> l_solar (generateLocals pf rnd now st)
       \<and> l_solar (generateLocals pf rnd now st) \<le> 12"
proof (cases "getHours pf now \<ge> 6 \<and> getHours pf now \<le> 18")
  case True
  let ?s = "mathSin pf (fmul pf (fdiv pf (real_of_int (getHours pf now - 6)) 12) (mathPi pf))"
  let ?g = "fadd pf 8 (fmul pf (rnd 0) 4)"
  from True solar_angle_range[of "getHours pf now" pf] sn
  have s: "0 \<le> ?s" "?s \<le> 1" by simp_all
  from r affine_range[of "rnd 0" 8 4 pf] have g: "8 \<le> ?g" "?g \<le> 12" by simp_all
  from s(1) g(1) have "0 \<le> ?s * ?g" by simp
  from fl_nonneg[OF this] have lo: "0 \<le> fmul pf ?s ?g" by (simp add: fmul_def)
  from s g have "?s * ?g \<le> 1 * 12" by (intro mult_mono) simp_all
  then have "?s * ?g \<le> real_of_int 12" by simp
  from fl_upper[OF _ this] have hi: "fmul pf ?s ?g \<le> 12" by (simp add: fmul_def)
  from True have "l_solar (generateLocals pf rnd now st) = fmul pf ?s ?g"
    by (simp only: locals_solar if_True simp_thms)
  with lo hi show ?thesis by (simp only:)
next
  case False
  then have "l_solar (generateLocals pf rnd now st) = 0"
    by (simp only: locals_solar if_False simp_thms)
  then show ?thesis by simp
qed

lemma wind_range:
  assumes r: "\<forall>n. 0 \<le> rnd n \<and> rnd n < 1"
  shows "3 \<le> l_wind (generateLocals pf rnd now st)
       \<and> l_wind (generateLocals pf rnd now st) \<le> 9"
proof -
  let ?c = "if getHours pf now \<ge> 6 \<and> getHours pf now \<le> 18 then Suc 0 else 0"
  from r have "0 \<le> rnd ?c" "rnd ?c \<le> 1" by (simp_all add: less_imp_le)
  from affine_range[OF this, of 3 6 pf]
  have "3 \<le> fadd pf 3 (fmul pf (rnd ?c) 6)" "fadd pf 3 (fmul pf (rnd ?c) 6) \<le> 9" by simp_all
  then show ?thesis by (simp only: locals_wind simp_thms)
qed

text \<open>The sine of the example browser lies between 0 and 1 on the angles from 0 to \<open>\<pi>\<close>.\<close>

lemma sine_example:
  "\<forall>x. 0 \<le> x \<and> x \<le> mathPi examplePlatform
       \<longrightarrow> 0 \<le> mathSin examplePlatform x \<and> mathSin examplePlatform x \<le> 1"
  by (simp add: sin_ge_zero)

lemma stored_fields:
  "health (battery (currentData (generateCurrentData pf rnd now tnow st)))
     = l_batteryHealth (generateLocals pf rnd now st)"
  "grid_status (grid (currentData (generateCurrentData pf rnd now tnow st)))
     = l_gridStatus (generateLocals pf rnd now st)"
  "load (grid (currentData (generateCurrentData pf rnd now tnow st)))
     = js_round (l_gridLoad (generateLocals pf rnd now st))"
  "solar (generation (currentData (generateCurrentData pf rnd now tnow st)))
     = round2 pf (l_solar (generateLocals pf rnd now st))"
  "wind (generation (currentData (generateCurrentData pf rnd now tnow st)))
     = round2 pf (l_wind (generateLocals pf rnd now st))"
  "gen_total (generation (currentData (generateCurrentData pf rnd now tnow st)))
     = round2 pf (l_totalGeneration (generateLocals pf rnd now st))"
  "cons_total (consumption (currentData (generateCurrentData pf rnd now tnow st)))
     = round2 pf (l_totalConsumption (generateLocals pf rnd now st))"
  by (simp_all add: currentData_generateCurrentData Let_def)

lemma hour_range_midnight:
  "\<not> (getHours examplePlatform 1793750400000 \<ge> 6 \<and> getHours examplePlatform 1793750400000 \<le> 18)"
  by (simp add: hour_midnight)

lemma consumption_midnight:
  "l_totalConsumption (generateLocals examplePlatform (firstDraw r) 1793750400000 (exampleStateAt p))
   = 8.05"
proof -
  have h: "householdData (exampleStateAt p) = \<lparr>households = initialHouseholds\<rparr>"
    by (simp add: exampleStateAt_def exampleState_def newManager_def)
  have "getTotalHouseholdConsumption examplePlatform
          (fst (updateHouseholdConsumption examplePlatform (firstDraw r) (Suc 0) 0 d
                  \<lparr>households = initialHouseholds\<rparr>)) = 8.05" for d
    unfolding initialHouseholds_def
    by (simp add: getTotalHouseholdConsumption_def updateHouseholdConsumption_def
        devicePower_def firstDraw_def round2_example js_round_def fadd_def fmul_def)
  note v = this
  have "l_totalConsumption (generateLocals examplePlatform (firstDraw r) 1793750400000
          (exampleStateAt p))
        = getTotalHouseholdConsumption examplePlatform
            (fst (updateHouseholdConsumption examplePlatform (firstDraw r) (Suc 0) 0
                    (getDay examplePlatform 1793750400000)
                    \<lparr>households = initialHouseholds\<rparr>))"
    by (simp add: locals_totalConsumption hour_midnight h)
  also have "\<dots> = 8.05" by (rule v)
  finally show ?thesis .
qed

lemma wind_midnight:
  "l_wind (generateLocals examplePlatform (firstDraw r) 1793750400000 (exampleStateAt p))
   = 3 + r * 6"
  by (simp only: locals_wind hour_range_midnight if_False) (simp add: firstDraw_def fadd_def fmul_def)

lemma solar_midnight:
  "l_solar (generateLocals examplePlatform (firstDraw r) 1793750400000 (exampleStateAt p)) = 0"
  by (simp only: locals_solar hour_range_midnight if_False)

lemma netEnergy_midnight:
  "l_netEnergy (generateLocals examplePlatform (firstDraw r) 1793750400000 (exampleStateAt p))
   = r * 6 - 5.05"
  by (simp add: locals_netEnergy locals_totalGeneration fadd_def fsub_def solar_midnight
      wind_midnight consumption_midnight)

lemma percentage_exampleStateAt:
  "percentage (battery (currentData (exampleStateAt p))) = p"
  by (simp add: exampleStateAt_def)

lemma limit_exampleStateAt:
  "batteryDischargeLimit (energyLimits (controlsData (exampleStateAt p))) = 20"
  by (simp add: exampleStateAt_def exampleState_def newManager_def)

lemma battery_midnight_discharging:
  "r * 6 < 5.05 \<Longrightarrow>
   l_batteryPercentage (generateLocals examplePlatform (firstDraw r) 1793750400000
      (exampleStateAt p)) = max 0 (p + (r * 6 - 5.05) * 0.1)"
  by (simp add: locals_batteryPercentage netEnergy_midnight percentage_exampleStateAt
      fadd_def fmul_def)

text \<open>
  C4, as the code has it: the health is computed from the battery percentage before
  it is rounded, \<open>Critical\<close> below 10, \<open>Warning\<close> from 10 and below 30, \<open>Good\<close> from 30,
  and the snapshot stores the rounded percentage. So a stored percentage below 10
  means \<open>Critical\<close>, one between 10 and 30 excluded means \<open>Warning\<close>, one above 30
  means \<open>Good\<close>; a stored 10 goes with \<open>Critical\<close> or \<open>Warning\<close> and a stored 30 with
  \<open>Warning\<close> or \<open>Good\<close>.
\<close>

theorem battery_health_of_percentage:
  assumes "L = generateLocals pf rnd now st"
      and "cur = currentData (generateCurrentData pf rnd now tnow st)"
  shows "percentage (battery cur) = js_round (l_batteryPercentage L)
       \<and> (health (battery cur) = ''Critical'') = (l_batteryPercentage L < 10)
       \<and> (health (battery cur) = ''Warning'')
           = (10 \<le> l_batteryPercentage L \<and> l_batteryPercentage L < 30)
       \<and> (health (battery cur) = ''Good'') = (30 \<le> l_batteryPercentage L)
       \<and> (percentage (battery cur) < 10 \<longrightarrow> health (battery cur) = ''Critical'')
       \<and> (10 < percentage (battery cur) \<and> percentage (battery cur) < 30
            \<longrightarrow> health (battery cur) = ''Warning'')
       \<and> (30 < percentage (battery cur) \<longrightarrow> health (battery cur) = ''Good'')
       \<and> (percentage (battery cur) = 10
            \<longrightarrow> health (battery cur) = ''Critical'' \<or> health (battery cur) = ''Warning'')
       \<and> (percentage (battery cur) = 30
            \<longrightarrow> health (battery cur) = ''Warning'' \<or> health (battery cur) = ''Good'')"
proof -
  let ?bp = "l_batteryPercentage L"
  have p: "percentage (battery cur) = js_round ?bp"
    by (simp only: assms percentage_generateCurrentData)
  have h: "health (battery cur) =
     (if ?bp < 10 then ''Critical'' else if ?bp < 30 then ''Warning'' else ''Good'')"
    by (simp only: assms stored_fields locals_health)
  have c: "(health (battery cur) = ''Critical'') = (?bp < 10)" by (simp add: h)
  have w: "(health (battery cur) = ''Warning'') = (10 \<le> ?bp \<and> ?bp < 30)"
    by (auto simp: h)
  have g: "(health (battery cur) = ''Good'') = (30 \<le> ?bp)" by (auto simp: h)
  have lt10: "js_round ?bp < 10 \<Longrightarrow> ?bp < 10" using js_round_lt[of ?bp 10] by simp
  have lt30: "js_round ?bp < 30 \<Longrightarrow> ?bp < 30" using js_round_lt[of ?bp 30] by simp
  have gt10: "10 < js_round ?bp \<Longrightarrow> 10 \<le> ?bp" using js_round_gt[of 10 ?bp] by simp
  have gt30: "30 < js_round ?bp \<Longrightarrow> 30 \<le> ?bp" using js_round_gt[of 30 ?bp] by simp
  have eq10: "js_round ?bp = 10 \<Longrightarrow> ?bp < 30" using lt30 by simp
  have eq30: "js_round ?bp = 30 \<Longrightarrow> 10 \<le> ?bp" using gt10 by simp
  have i1: "percentage (battery cur) < 10 \<longrightarrow> health (battery cur) = ''Critical''"
    using lt10 by (simp add: p c)
  have i2: "10 < percentage (battery cur) \<and> percentage (battery cur) < 30
            \<longrightarrow> health (battery cur) = ''Warning''"
    using gt10 lt30 by (simp add: p w)
  have i3: "30 < percentage (battery cur) \<longrightarrow> health (battery cur) = ''Good''"
    using gt30 by (simp add: p g)
  have i4: "percentage (battery cur) = 10
            \<longrightarrow> health (battery cur) = ''Critical'' \<or> health (battery cur) = ''Warning''"
    using eq10 by (auto simp: p h)
  have i5: "percentage (battery cur) = 30
            \<longrightarrow> health (battery cur) = ''Warning'' \<or> health (battery cur) = ''Good''"
    using eq30 by (auto simp: p h)
  from p c w g i1 i2 i3 i4 i5 show ?thesis by blast
qed

theorem battery_health_of_percentage_witness:
  "percentage (battery (currentData (generateCurrentData examplePlatform (firstDraw (1 / 2))
      1793750400000 1793750400000 (exampleStateAt 5)))) < 10
   \<and> health (battery (currentData (generateCurrentData examplePlatform (firstDraw (1 / 2))
      1793750400000 1793750400000 (exampleStateAt 5)))) = ''Critical''"
proof -
  let ?L = "generateLocals examplePlatform (firstDraw (1 / 2)) 1793750400000 (exampleStateAt 5)"
  have bp: "l_batteryPercentage ?L = 4.795"
    by (simp add: battery_midnight_discharging)
  have r: "js_round 4.795 = 5" by (simp add: js_round_def)
  have p: "percentage (battery (currentData (generateCurrentData examplePlatform
      (firstDraw (1 / 2)) 1793750400000 1793750400000 (exampleStateAt 5)))) = 5"
    by (simp only: percentage_generateCurrentData bp r)
  then have "percentage (battery (currentData (generateCurrentData examplePlatform
      (firstDraw (1 / 2)) 1793750400000 1793750400000 (exampleStateAt 5)))) < 10" by simp
  with battery_health_of_percentage[where pf = examplePlatform and rnd = "firstDraw (1 / 2)"
      and now = 1793750400000 and st = "exampleStateAt 5" and tnow = 1793750400000,
      OF refl refl]
  show ?thesis by blast
qed

text \<open>
  The stored percentage alone does not determine the health. At midnight, with the
  battery at 10 and a net energy of -2.05, the percentage before rounding is 9.795:
  the health is \<open>Critical\<close> and the stored percentage is 10.
\<close>

theorem battery_health_stored_counterexample:
  "health (battery (currentData (generateCurrentData examplePlatform (firstDraw (1 / 2))
      1793750400000 1793750400000 (exampleStateAt 10)))) = ''Critical''
   \<and> \<not> percentage (battery (currentData (generateCurrentData examplePlatform (firstDraw (1 / 2))
      1793750400000 1793750400000 (exampleStateAt 10)))) < 10"
proof -
  let ?L = "generateLocals examplePlatform (firstDraw (1 / 2)) 1793750400000 (exampleStateAt 10)"
  have bp: "l_batteryPercentage ?L = 9.795"
    by (simp add: battery_midnight_discharging)
  have r: "js_round 9.795 = 10" by (simp add: js_round_def)
  have h: "l_batteryHealth ?L = ''Critical''"
    by (simp only: locals_health bp) simp
  have p: "percentage (battery (currentData (generateCurrentData examplePlatform
      (firstDraw (1 / 2)) 1793750400000 1793750400000 (exampleStateAt 10)))) = 10"
    by (simp only: percentage_generateCurrentData bp r)
  show ?thesis by (simp only: stored_fields h p) simp
qed

text \<open>
  C5, as the code has it: the grid is \<open>ON\<close> exactly when the battery percentage, before
  \<open>Math.round\<close>, is below the discharge limit or the total consumption, before it is
  rounded to 2 decimals, is greater than the double sum of the total generation and 2,
  the total generation being the double sum of the solar and the wind generation, not
  yet rounded to 2 decimals; otherwise the grid is \<open>OFF\<close> and the load is 0. The
  snapshot stores the rounded values.
\<close>

theorem grid_status_of_locals:
  assumes "L = generateLocals pf rnd now st"
      and "cur = currentData (generateCurrentData pf rnd now tnow st)"
  shows "(grid_status (grid cur) = ''ON'')
           = (l_batteryPercentage L < batteryDischargeLimit (energyLimits (controlsData st))
              \<or> l_totalConsumption L > fadd pf (l_totalGeneration L) 2)
       \<and> l_totalGeneration L = fadd pf (l_solar L) (l_wind L)
       \<and> (grid_status (grid cur) \<noteq> ''ON''
            \<longrightarrow> grid_status (grid cur) = ''OFF'' \<and> load (grid cur) = 0)
       \<and> percentage (battery cur) = js_round (l_batteryPercentage L)
       \<and> gen_total (generation cur) = round2 pf (l_totalGeneration L)
       \<and> cons_total (consumption cur) = round2 pf (l_totalConsumption L)"
proof -
  have s: "grid_status (grid cur) =
     (if l_batteryPercentage L < batteryDischargeLimit (energyLimits (controlsData st))
         \<or> l_totalConsumption L > fadd pf (l_totalGeneration L) 2 then ''ON'' else ''OFF'')"
    by (simp only: assms stored_fields locals_gridStatus)
  have l: "load (grid cur) = js_round (if grid_status (grid cur) = ''ON''
      then min 100 (fmul pf \<bar>l_netEnergy L\<bar> 10) else 0)"
    by (simp only: assms stored_fields locals_gridLoad)
  have z: "js_round 0 = 0" by (simp add: js_round_def)
  have a: "(grid_status (grid cur) = ''ON'')
           = (l_batteryPercentage L < batteryDischargeLimit (energyLimits (controlsData st))
              \<or> l_totalConsumption L > fadd pf (l_totalGeneration L) 2)"
    by (simp add: s)
  have g: "l_totalGeneration L = fadd pf (l_solar L) (l_wind L)"
    by (simp only: assms locals_totalGeneration)
  have b: "grid_status (grid cur) \<noteq> ''ON''
            \<longrightarrow> grid_status (grid cur) = ''OFF'' \<and> load (grid cur) = 0"
  proof
    assume n: "grid_status (grid cur) \<noteq> ''ON''"
    with s have "grid_status (grid cur) = ''OFF''" by (simp split: if_splits)
    moreover from n l z have "load (grid cur) = 0" by simp
    ultimately show "grid_status (grid cur) = ''OFF'' \<and> load (grid cur) = 0" by simp
  qed
  have c: "percentage (battery cur) = js_round (l_batteryPercentage L)"
    "gen_total (generation cur) = round2 pf (l_totalGeneration L)"
    "cons_total (consumption cur) = round2 pf (l_totalConsumption L)"
    by (simp_all only: assms percentage_generateCurrentData stored_fields)
  from a g b c show ?thesis by blast
qed

theorem grid_status_of_locals_witness:
  "grid_status (grid (currentData (generateCurrentData examplePlatform (firstDraw (7 / 10))
      1793750400000 1793750400000 (exampleStateAt 75)))) \<noteq> ''ON''
   \<and> grid_status (grid (currentData (generateCurrentData examplePlatform (firstDraw (7 / 10))
      1793750400000 1793750400000 (exampleStateAt 75)))) = ''OFF''
   \<and> load (grid (currentData (generateCurrentData examplePlatform (firstDraw (7 / 10))
      1793750400000 1793750400000 (exampleStateAt 75)))) = 0"
proof -
  let ?L = "generateLocals examplePlatform (firstDraw (7 / 10)) 1793750400000 (exampleStateAt 75)"
  have bp: "l_batteryPercentage ?L = 74.915"
    by (simp add: battery_midnight_discharging)
  have g: "l_totalGeneration ?L = 7.2"
    by (simp add: locals_totalGeneration fadd_def solar_midnight wind_midnight)
  have c: "l_totalConsumption ?L = 8.05" by (rule consumption_midnight)
  have off: "l_gridStatus ?L = ''OFF''"
    by (simp only: locals_gridStatus bp g c limit_exampleStateAt) (simp add: fadd_def)
  have "grid_status (grid (currentData (generateCurrentData examplePlatform (firstDraw (7 / 10))
      1793750400000 1793750400000 (exampleStateAt 75)))) \<noteq> ''ON''"
    by (simp only: stored_fields off) simp
  with grid_status_of_locals[where pf = examplePlatform and rnd = "firstDraw (7 / 10)"
      and now = 1793750400000 and st = "exampleStateAt 75" and tnow = 1793750400000,
      OF refl refl]
  show ?thesis by blast
qed

text \<open>
  The stored values do not determine the grid status. On a platform whose arithmetic
  is exact, at midnight, with the battery at 20, the limit at 20 and a net energy of
  -0.85, the percentage before rounding is 19.915: the grid is \<open>ON\<close>, the stored
  percentage is 20, and the stored consumption 8.05 does not exceed the stored
  generation 7.2 by more than 2.
\<close>

theorem grid_status_stored_counterexample:
  "grid_status (grid (currentData (generateCurrentData examplePlatform (firstDraw (7 / 10))
      1793750400000 1793750400000 (exampleStateAt 20)))) = ''ON''
   \<and> \<not> (percentage (battery (currentData (generateCurrentData examplePlatform (firstDraw (7 / 10))
              1793750400000 1793750400000 (exampleStateAt 20))))
          < batteryDischargeLimit (energyLimits (controlsData (exampleStateAt 20)))
        \<or> cons_total (consumption (currentData (generateCurrentData examplePlatform
              (firstDraw (7 / 10)) 1793750400000 1793750400000 (exampleStateAt 20))))
          > gen_total (generation (currentData (generateCurrentData examplePlatform
              (firstDraw (7 / 10)) 1793750400000 1793750400000 (exampleStateAt 20)))) + 2)"
proof -
  let ?L = "generateLocals examplePlatform (firstDraw (7 / 10)) 1793750400000 (exampleStateAt 20)"
  have bp: "l_batteryPercentage ?L = 19.915"
    by (simp add: battery_midnight_discharging)
  have g: "l_totalGeneration ?L = 7.2"
    by (simp add: locals_totalGeneration fadd_def solar_midnight wind_midnight)
  have c: "l_totalConsumption ?L = 8.05" by (rule consumption_midnight)
  have on: "l_gridStatus ?L = ''ON''"
    by (simp only: locals_gridStatus bp limit_exampleStateAt) simp
  have r: "js_round 19.915 = 20" "round2 examplePlatform 7.2 = 7.2"
    "round2 examplePlatform 8.05 = 8.05"
    by (simp_all add: js_round_def round2_example)
  show ?thesis
    by (simp only: stored_fields percentage_generateCurrentData bp g c on r
        limit_exampleStateAt) simp
qed

text \<open>
  C8, as the code has it, for random draws in [0,1) and a sine that lies between 0 and
  1 on the angles from 0 to \<open>Math.PI\<close>: the stored total is the double sum of the solar
  and the wind generation, rounded to 2 decimals, and the stored components are the
  two rounded separately. Before rounding the solar generation lies in [0,12] and the
  wind generation in [3,9], both bounds included; so do the stored solar and the
  stored wind generation. Outside the hours 6 to 18 the solar generation is 0.
\<close>

theorem generation_components:
  assumes "\<forall>x. 0 \<le> x \<and> x \<le> mathPi pf \<longrightarrow> 0 \<le> mathSin pf x \<and> mathSin pf x \<le> 1"
      and "\<forall>n. 0 \<le> rnd n \<and> rnd n < 1"
      and "L = generateLocals pf rnd now st"
      and "cur = currentData (generateCurrentData pf rnd now tnow st)"
  shows "gen_total (generation cur) = round2 pf (fadd pf (l_solar L) (l_wind L))
       \<and> solar (generation cur) = round2 pf (l_solar L)
       \<and> wind (generation cur) = round2 pf (l_wind L)
       \<and> 0 \<le> l_solar L \<and> l_solar L \<le> 12 \<and> 3 \<le> l_wind L \<and> l_wind L \<le> 9
       \<and> 0 \<le> solar (generation cur) \<and> solar (generation cur) \<le> 12
       \<and> 3 \<le> wind (generation cur) \<and> wind (generation cur) \<le> 9
       \<and> (getHours pf now < 6 \<or> 18 < getHours pf now
            \<longrightarrow> l_solar L = 0 \<and> solar (generation cur) = 0)"
proof -
  from assms(2) have r0: "0 \<le> rnd 0" "rnd 0 < 1" by simp_all
  have f: "gen_total (generation cur) = round2 pf (fadd pf (l_solar L) (l_wind L))"
    "solar (generation cur) = round2 pf (l_solar L)"
    "wind (generation cur) = round2 pf (l_wind L)"
    by (simp_all only: assms(3,4) stored_fields locals_totalGeneration)
  from solar_range[of pf rnd now st, OF assms(1) r0]
  have s: "0 \<le> l_solar L" "l_solar L \<le> 12" by (simp_all only: assms(3))
  from wind_range[of rnd pf now st, OF assms(2)]
  have w: "3 \<le> l_wind L" "l_wind L \<le> 9" by (simp_all only: assms(3))
  from round2_lower[of 0 "l_solar L" pf] round2_upper[of 12 "l_solar L" pf] s
  have ss: "0 \<le> solar (generation cur)" "solar (generation cur) \<le> 12"
    by (simp_all add: f)
  from round2_lower[of 3 "l_wind L" pf] round2_upper[of 9 "l_wind L" pf] w
  have ws: "3 \<le> wind (generation cur)" "wind (generation cur) \<le> 9"
    by (simp_all add: f)
  from round2_lower[of 0 0 pf] round2_upper[of 0 0 pf]
  have z: "round2 pf 0 = 0" by simp
  have night: "getHours pf now < 6 \<or> 18 < getHours pf now
            \<longrightarrow> l_solar L = 0 \<and> solar (generation cur) = 0"
  proof
    assume "getHours pf now < 6 \<or> 18 < getHours pf now"
    then have "\<not> (getHours pf now \<ge> 6 \<and> getHours pf now \<le> 18)" by auto
    then have "l_solar L = 0" by (simp only: assms(3) locals_solar if_False simp_thms)
    then show "l_solar L = 0 \<and> solar (generation cur) = 0" by (simp add: f z)
  qed
  from f s w ss ws night show ?thesis by blast
qed

theorem generation_components_witness:
  "getHours examplePlatform 1793750400000 < 6
   \<and> solar (generation (currentData (generateCurrentData examplePlatform (firstDraw (1 / 2))
        1793750400000 1793750400000 (exampleStateAt 75)))) = 0
   \<and> 3 \<le> wind (generation (currentData (generateCurrentData examplePlatform (firstDraw (1 / 2))
        1793750400000 1793750400000 (exampleStateAt 75))))
   \<and> wind (generation (currentData (generateCurrentData examplePlatform (firstDraw (1 / 2))
        1793750400000 1793750400000 (exampleStateAt 75)))) \<le> 9"
proof -
  have d: "\<forall>n. 0 \<le> firstDraw (1 / 2) n \<and> firstDraw (1 / 2) n < 1"
    by (simp add: firstDraw_def)
  have h: "getHours examplePlatform 1793750400000 < 6" by (simp add: hour_midnight)
  from generation_components[where pf = examplePlatform and rnd = "firstDraw (1 / 2)"
      and now = 1793750400000 and st = "exampleStateAt 75" and tnow = 1793750400000,
      OF sine_example d refl refl] h
  show ?thesis by blast
qed

text \<open>
  The stored wind generation reaches 9: at midnight a first draw of 0.9995, the other
  draws being 0, gives 8.997, stored as 9.
\<close>

theorem wind_stored_counterexample:
  "(0::real) \<le> 9995 / 10000 \<and> (9995 / 10000 :: real) < 1
   \<and> \<not> wind (generation (currentData (generateCurrentData examplePlatform
          (firstDraw (9995 / 10000)) 1793750400000 1793750400000 (exampleStateAt 75)))) < 9"
proof -
  have w: "l_wind (generateLocals examplePlatform (firstDraw (9995 / 10000)) 1793750400000
      (exampleStateAt 75)) = 8.997"
    by (simp add: wind_midnight)
  have r: "round2 examplePlatform 8.997 = 9" by (simp add: round2_example js_round_def)
  have "\<not> wind (generation (currentData (generateCurrentData examplePlatform
          (firstDraw (9995 / 10000)) 1793750400000 1793750400000 (exampleStateAt 75)))) < 9"
    by (simp only: stored_fields w r)
  then show ?thesis by simp
qed

subsection \<open>Alerts\<close>


lemma alertsData_updateHistoricalData [simp]:
  "alertsData (updateHistoricalData pf st) = alertsData st"
  by (simp add: updateHistoricalData_def Let_def)












subsection \<open>Append cadence\<close>

text \<open>
  An append to a series that is not empty happens only when the last label parses to
  a time that lies at least 30 minutes (\<open>24h\<close>) or 60 minutes (\<open>7d\<close>, \<open>30d\<close>) before the
  snapshot. The label of the \<open>30d\<close> series is the same for a whole day, so once a
  snapshot appends while the last label is that of its own day, every later snapshot
  of that day appends again, however soon it follows.
\<close>

lemma shouldUpdateData_threshold:
  assumes "shouldUpdateData pf period data currentTime" and "labels data \<noteq> []"
  shows "\<exists>lastTime. parseDate pf (last (labels data)) = Some lastTime
           \<and> (period = ''24h'' \<and> currentTime - lastTime \<ge> 30 * 60 * 1000
              \<or> (period = ''7d'' \<or> period = ''30d'') \<and> currentTime - lastTime \<ge> 60 * 60 * 1000)"
  using assms
  by (auto simp: shouldUpdateData_def Let_def split: option.splits if_splits)

lemma shouldUpdateData_repeats:
  assumes "labels data \<noteq> []"
      and "parseDate pf (last (labels data)) = Some lastTime"
      and "formatTimeForPeriod pf t ''30d'' = last (labels data)"
      and "lastTime + 60 * 60 * 1000 \<le> t" and "t \<le> t'"
  shows "shouldUpdateData pf ''30d'' data t
       \<and> shouldUpdateData pf ''30d'' (addDataPoint pf ''30d'' data cur t) t'"
proof -
  from assms have a: "shouldUpdateData pf ''30d'' data t"
    by (simp add: shouldUpdateData_def)
  have "labels (addDataPoint pf ''30d'' data cur t) \<noteq> []"
    "last (labels (addDataPoint pf ''30d'' data cur t)) = last (labels data)"
    by (simp_all add: addDataPoint_fields assms(3))
  with assms have "shouldUpdateData pf ''30d'' (addDataPoint pf ''30d'' data cur t) t'"
    by (simp add: shouldUpdateData_def)
  with a show ?thesis by simp
qed

lemma initLoop_labels:
  "labels (fst (initLoop pf rnd now period iv n c acc))
   = labels acc @ map (\<lambda>i. formatTimeForPeriod pf (now - int i * iv * 60 * 1000) period)
       (rev [0..<n])"
proof (induction n arbitrary: c acc)
  case 0
  then show ?case by simp
next
  case (Suc n)
  show ?case
    unfolding initLoop.simps Let_def
    by (simp add: Suc)
qed

lemma last_rev_upt: "0 < n \<Longrightarrow> last (map f (rev [0..<n])) = f 0"
  by (simp add: last_map last_rev hd_upt)

lemma initializePeriodData_labels:
  "labels (fst (initializePeriodData pf rnd c now period points iv))
   = map (\<lambda>i. formatTimeForPeriod pf (now - int i * iv * 60 * 1000) period) (rev [0..<points])"
  by (simp add: initializePeriodData_def initLoop_labels)

lemma initializePeriodData_last:
  assumes "0 < points"
  shows "labels (fst (initializePeriodData pf rnd c now period points iv)) \<noteq> []"
    and "length (labels (fst (initializePeriodData pf rnd c now period points iv))) = points"
    and "last (labels (fst (initializePeriodData pf rnd c now period points iv)))
         = formatTimeForPeriod pf now period"
proof -
  show "length (labels (fst (initializePeriodData pf rnd c now period points iv))) = points"
    by (simp add: initializePeriodData_labels)
  with assms show "labels (fst (initializePeriodData pf rnd c now period points iv)) \<noteq> []"
    by auto
  from last_rev_upt[OF assms,
      of "\<lambda>i. formatTimeForPeriod pf (now - int i * iv * 60 * 1000) period"]
  show "last (labels (fst (initializePeriodData pf rnd c now period points iv)))
         = formatTimeForPeriod pf now period"
    by (simp add: initializePeriodData_labels)
qed

lemma initial_h30d:
  "\<exists>c. h30d (initializeHistoricalData pf rnd now)
        = fst (initializePeriodData pf rnd c now ''30d'' 720 60)"
  unfolding initializeHistoricalData_def Let_def by auto

lemma initial_h30d_last:
  "labels (h30d (initializeHistoricalData pf rnd now)) \<noteq> []
   \<and> length (labels (h30d (initializeHistoricalData pf rnd now))) = 720
   \<and> last (labels (h30d (initializeHistoricalData pf rnd now)))
       = formatTimeForPeriod pf now ''30d''"
proof -
  from initial_h30d obtain c where
    c: "h30d (initializeHistoricalData pf rnd now)
        = fst (initializePeriodData pf rnd c now ''30d'' 720 60)" by blast
  have p: "(0::nat) < 720" by simp
  from initializePeriodData_last[OF p, of pf rnd c now "''30d''" 60]
  show ?thesis by (simp only: c simp_thms)
qed

lemma h30d_updateHistoricalData:
  "h30d (historicalData (updateHistoricalData pf st))
   = (if shouldUpdateData pf ''30d'' (h30d (historicalData st)) (timestamp (currentData st))
      then addDataPoint pf ''30d'' (h30d (historicalData st)) (currentData st)
             (timestamp (currentData st))
      else h30d (historicalData st))"
  unfolding updateHistoricalData_def Let_def by simp

lemma timestamp_generateCurrentData:
  "timestamp (currentData (generateCurrentData pf rnd now tnow st)) = now"
  by (simp add: currentData_generateCurrentData Let_def)

lemma h30d_generateCurrentData:
  "h30d (historicalData (generateCurrentData pf rnd now tnow st))
   = (if shouldUpdateData pf ''30d'' (h30d (historicalData st)) now
      then addDataPoint pf ''30d'' (h30d (historicalData st))
             (currentData (generateCurrentData pf rnd now tnow st)) now
      else h30d (historicalData st))"
  unfolding generateCurrentData_def Let_def
  by (simp add: h30d_updateHistoricalData)

lemma monthDay_example: "monthDayLabel (monthDayOfDays 20760) = ''Nov 3''"
proof -
  have "monthDayOfDays 20760 = (11, 3)"
    unfolding monthDayOfDays_def Let_def by simp
  then show ?thesis by (simp add: monthDayLabel_def monthNames_def showNat_digit)
qed

lemma label_example:
  "formatTimeForPeriod examplePlatform 1793707200000 ''30d'' = ''Nov 3''"
  "formatTimeForPeriod examplePlatform 1793707205000 ''30d'' = ''Nov 3''"
  "formatTimeForPeriod examplePlatform 1793707210000 ''30d'' = ''Nov 3''"
  by (simp_all add: formatTimeForPeriod_def examplePlatform_def monthDay_example)

lemma parse_example: "parseDate examplePlatform ''Nov 3'' = Some 1004745600000"
proof -
  have "exampleParseDate ''Nov 3'' = Some 1004745600000" by code_simp
  then show ?thesis by (simp add: examplePlatform_def)
qed

lemma append_at_capacity_labels:
  assumes "length (labels data) = 720"
  shows "labels (addDataPoint pf ''30d'' data cur t)
         = tl (labels data) @ [formatTimeForPeriod pf t ''30d'']"
  using assms by (simp add: addDataPoint_fields maxPoints_def)

text \<open>
  C1 on the constructed manager in the example browser: the last label of the \<open>30d\<close>
  series is \<open>Nov 3\<close>, which parses to 3 November 2001. The snapshots generated 5 and 10
  seconds after the construction both append a point to the \<open>30d\<close> series, which is
  full: its two oldest points are evicted and its two newest labels, 5 seconds apart,
  are both \<open>Nov 3\<close>.
\<close>

theorem append_cadence_example:
  "length (labels (h30d (historicalData exampleState))) = 720
   \<and> last (labels (h30d (historicalData exampleState))) = ''Nov 3''
   \<and> labels (h30d (historicalData
        (generateCurrentData examplePlatform (\<lambda>_. 1 / 2) 1793707210000 1793707210000
           (generateCurrentData examplePlatform (\<lambda>_. 1 / 2) 1793707205000 1793707205000
              exampleState))))
     = drop 2 (labels (h30d (historicalData exampleState))) @ [''Nov 3'', ''Nov 3'']"
proof -
  let ?s0 = "h30d (historicalData exampleState)"
  let ?st1 = "generateCurrentData examplePlatform (\<lambda>_. 1 / 2) 1793707205000 1793707205000
              exampleState"
  let ?s1 = "h30d (historicalData ?st1)"
  let ?st2 = "generateCurrentData examplePlatform (\<lambda>_. 1 / 2) 1793707210000 1793707210000 ?st1"
  have h0: "?s0 = h30d (initializeHistoricalData examplePlatform (\<lambda>_. 1 / 2) 1793707200000)"
    by (simp add: exampleState_def newManager_def)
  from initial_h30d_last[of examplePlatform "\<lambda>_. 1 / 2" 1793707200000]
  have "labels ?s0 \<noteq> [] \<and> length (labels ?s0) = 720 \<and> last (labels ?s0) = ''Nov 3''"
    by (simp only: h0 label_example simp_thms)
  then have n0: "labels ?s0 \<noteq> []" and l0: "length (labels ?s0) = 720"
    and last0: "last (labels ?s0) = ''Nov 3''"
    by blast+
  have u1: "shouldUpdateData examplePlatform ''30d'' ?s0 1793707205000"
    using n0 by (simp add: shouldUpdateData_def last0 parse_example)
  then have s1: "?s1 = addDataPoint examplePlatform ''30d'' ?s0 (currentData ?st1) 1793707205000"
    by (simp only: h30d_generateCurrentData if_True)
  have lab1: "labels ?s1 = tl (labels ?s0) @ [''Nov 3'']"
    by (simp only: s1 append_at_capacity_labels[OF l0] label_example)
  then have n1: "labels ?s1 \<noteq> []" and last1: "last (labels ?s1) = ''Nov 3''"
    and l1: "length (labels ?s1) = 720"
    using l0 by simp_all
  have u2: "shouldUpdateData examplePlatform ''30d'' ?s1 1793707210000"
    using n1 by (simp add: shouldUpdateData_def last1 parse_example)
  then have s2: "h30d (historicalData ?st2)
      = addDataPoint examplePlatform ''30d'' ?s1 (currentData ?st2) 1793707210000"
    by (simp only: h30d_generateCurrentData if_True)
  have lab2: "labels (h30d (historicalData ?st2)) = tl (labels ?s1) @ [''Nov 3'']"
    by (simp only: s2 append_at_capacity_labels[OF l1] label_example)
  from l0 have "tl (labels ?s0) \<noteq> []" by (cases "labels ?s0") auto
  then have "tl (tl (labels ?s0) @ [''Nov 3'']) = tl (tl (labels ?s0)) @ [''Nov 3'']"
    by simp
  moreover have "tl (tl (labels ?s0)) = drop 2 (labels ?s0)"
    by (simp add: drop_Suc numeral_2_eq_2 drop_tl)
  ultimately have "labels (h30d (historicalData ?st2))
      = drop 2 (labels ?s0) @ [''Nov 3'', ''Nov 3'']"
    by (simp only: lab2 lab1) simp
  with l0 last0 show ?thesis by blast
qed

subsection \<open>Reports\<close>

lemma foldl_add_replicate: "foldl (\<lambda>a b. a + b) a (replicate n x) = a + real n * (x::real)"
  by (induction n arbitrary: a) (simp_all add: algebra_simps)

lemma js_sum_replicate: "js_sum examplePlatform (replicate n x) = real n * x"
  by (simp add: js_sum_def fadd_def foldl_add_replicate)

lemma foldl_max_replicate: "foldl max (x::real) (replicate n x) = x"
  by (induction n) simp_all

lemma js_Math_max_replicate: "0 < n \<Longrightarrow> js_Math_max (replicate n x) = Num x"
  by (simp add: js_Math_max_def hd_replicate foldl_max_replicate)

text \<open>
  The only guard of the efficiency tests the numerator, \<open>avgGeneration > 0\<close>. A series
  with a positive average generation that is not empty and consumed nothing has the
  efficiency \<open>Infinity\<close>.
\<close>

lemma efficiency_zero_consumption:
  assumes a: "0 < fdiv pf (js_sum pf (s_generation data)) (real (length (s_generation data)))"
      and c: "s_consumption data \<noteq> []" and z: "js_sum pf (s_consumption data) = 0"
  shows "st_efficiency (reportStatistics pf data) = PosInf"
    and "avgConsumption (reportStatistics pf data) = Num 0"
proof -
  let ?avg = "fdiv pf (js_sum pf (s_generation data)) (real (length (s_generation data)))"
  have lg: "real (length (s_generation data)) \<noteq> 0"
  proof
    assume "real (length (s_generation data)) = 0"
    then have "?avg = 0" by (simp add: fdiv_def)
    with a show False by simp
  qed
  from c have lc: "real (length (s_consumption data)) \<noteq> 0" by simp
  have ag: "js_div pf (Num (js_sum pf (s_generation data)))
      (Num (real (length (s_generation data)))) = Num ?avg"
    using lg by simp
  have ac: "js_div pf (Num (js_sum pf (s_consumption data)))
      (Num (real (length (s_consumption data)))) = Num 0"
    using lc z by (simp add: fdiv_def)
  from a have e: "js_div pf (Num ?avg) (Num 0) = PosInf" by simp
  have "st_efficiency (reportStatistics pf data) =
      js_Math_round
        (if js_gt (Num ?avg) (Num 0) then js_mul pf (js_div pf (Num ?avg) (Num 0)) (Num 100)
         else Num 0)"
    unfolding reportStatistics_def Let_def ag ac by (simp only: statistics.select_convs)
  also from a have "\<dots> = PosInf" by (simp add: e del: js_div.simps)
  finally show "st_efficiency (reportStatistics pf data) = PosInf" .
  have "avgConsumption (reportStatistics pf data) = js_round2 pf (Num 0)"
    unfolding reportStatistics_def Let_def ac by (simp only: statistics.select_convs)
  then show "avgConsumption (reportStatistics pf data) = Num 0"
    by (simp add: js_round2_def js_round_def fmul_def fdiv_def)
qed

text \<open>
  With every device switched off the households consume nothing, whatever the hour and
  the random draws are.
\<close>

lemma devicePower_off: "status d = ''off'' \<Longrightarrow> devicePower pf rnd c hour d = (0, c)"
  by (simp add: devicePower_def)

lemma updateDevices_off:
  "\<forall>d\<in>set ds. status d = ''off'' \<Longrightarrow>
   snd (updateDevices pf rnd hour c 0 ds) = (0, c)"
proof (induction ds)
  case Nil
  then show ?case by simp
next
  case (Cons d ds)
  then have "snd (updateDevices pf rnd hour c 0 ds) = (0, c)" by simp
  moreover from Cons.prems have "devicePower pf rnd c hour d = (0, c)"
    by (simp add: devicePower_off)
  ultimately show ?case by (simp add: fadd_def split_beta)
qed

lemma round2_zero: "round2 pf 0 = 0"
  using round2_lower[of 0 0 pf] round2_upper[of 0 0 pf] by simp

lemma updateHouseholds_off:
  "\<forall>h\<in>set hs. \<forall>d\<in>set (devices h). status d = ''off'' \<Longrightarrow>
   (\<forall>h\<in>set (fst (updateHouseholds pf rnd hour c hs)). currentUsage h = 0)"
proof (induction hs)
  case Nil
  then show ?case by simp
next
  case (Cons h hs)
  from Cons.prems have "snd (updateDevices pf rnd hour c 0 (devices h)) = (0, c)"
    by (simp add: updateDevices_off)
  then obtain ds' where ud: "updateDevices pf rnd hour c 0 (devices h) = (ds', 0, c)"
    by (cases "updateDevices pf rnd hour c 0 (devices h)") auto
  from Cons have "\<forall>h\<in>set (fst (updateHouseholds pf rnd hour c hs)). currentUsage h = 0"
    by simp
  with ud show ?case by (simp add: split_beta round2_zero)
qed

lemma total_zero:
  "\<forall>h\<in>set hs. currentUsage h = 0 \<Longrightarrow>
   foldl (\<lambda>total h. fadd pf total (currentUsage h)) 0 hs = 0"
  by (induction hs) (simp_all add: fadd_def)

lemma allOff_households:
  "allOff st = (\<forall>h\<in>set (households (householdData st)). \<forall>d\<in>set (devices h). status d = ''off'')"
  by (simp add: allOff_def statuses_def list_all_iff)

lemma consumption_allOff:
  assumes "allOff st"
  shows "l_totalConsumption (generateLocals pf rnd now st) = 0"
proof -
  from assms have a: "\<forall>h\<in>set (households (householdData st)). \<forall>d\<in>set (devices h). status d = ''off''"
    by (simp add: allOff_households)
  show ?thesis
    by (simp add: locals_totalConsumption getTotalHouseholdConsumption_def
        updateHouseholdConsumption_def split_beta total_zero updateHouseholds_off[OF a])
qed

lemma allOff_generateCurrentData:
  "allOff (generateCurrentData pf rnd now tnow st) = allOff st"
  by (simp add: allOff_def statuses_generateCurrentData)


text \<open>
  The example run. After the ten toggles every device is off. Each of the 720
  snapshots is taken on 3 November 2026 between 12:00 and 13:00, so it generates 16
  and is appended to the \<open>30d\<close> series, whose last label \<open>Nov 3\<close> parses to a day of 2001.
\<close>

lemma statuses_switchOff:
  "statuses (performAll examplePlatform exampleState switchOffCalls)
   = [[''off'', ''off'', ''off'', ''off''], [''off'', ''off'', ''off'', ''off''],
      [''off'', ''off'', ''off'', ''off'']]"
  unfolding performAll_def switchOffCalls_def statuses_def
  by (simp add: toggleDevice_def Let_def households_exampleState initialHouseholds_def
      toggleStatus_def)


lemma snapshot_time:
  assumes "k < 720"
  shows "getHours examplePlatform (1793707201000 + 5000 * int k) = 12"
    and "formatTimeForPeriod examplePlatform (1793707201000 + 5000 * int k) ''30d'' = ''Nov 3''"
    and "1004745600000 + 60 * 60 * 1000 \<le> 1793707201000 + 5000 * int k"
proof -
  let ?t = "1793707201000 + 5000 * int k"
  from assms have h: "?t div 3600000 = 498252" by simp
  from assms have d: "?t div 86400000 = 20760" by simp
  from h show "getHours examplePlatform ?t = 12" by (simp add: examplePlatform_def)
  from d show "formatTimeForPeriod examplePlatform ?t ''30d'' = ''Nov 3''"
    by (simp add: formatTimeForPeriod_def examplePlatform_def monthDay_example)
  show "1004745600000 + 60 * 60 * 1000 \<le> ?t" by simp
qed

lemma generation_noon:
  assumes "getHours examplePlatform t = 12"
  shows "l_totalGeneration (generateLocals examplePlatform (\<lambda>_. 1 / 2) t st) = 16"
  by (simp add: locals_totalGeneration locals_solar locals_wind assms fadd_def fmul_def fdiv_def)

lemma round2_16: "round2 examplePlatform 16 = 16"
  by (simp add: round2_example js_round_def)

lemma h30d_step:
  assumes off: "allOff st" and len: "length (labels (h30d (historicalData st))) = 720"
      and lst: "last (labels (h30d (historicalData st))) = ''Nov 3''"
      and hour: "getHours examplePlatform t = 12"
      and lab: "formatTimeForPeriod examplePlatform t ''30d'' = ''Nov 3''"
      and late: "1004745600000 + 60 * 60 * 1000 \<le> t"
  shows "h30d (historicalData (generateCurrentData examplePlatform (\<lambda>_. 1 / 2) t t st))
       = \<lparr>labels = tl (labels (h30d (historicalData st))) @ [''Nov 3''],
          s_generation = tl (s_generation (h30d (historicalData st))) @ [16],
          s_consumption = tl (s_consumption (h30d (historicalData st))) @ [0]\<rparr>"
proof -
  let ?D = "h30d (historicalData st)"
  from len have ne: "labels ?D \<noteq> []" by auto
  from ne lst late have u: "shouldUpdateData examplePlatform ''30d'' ?D t"
    by (simp add: shouldUpdateData_def parse_example)
  have g: "gen_total (generation (currentData
      (generateCurrentData examplePlatform (\<lambda>_. 1 / 2) t t st))) = 16"
    by (simp only: stored_fields generation_noon[OF hour] round2_16)
  have c: "cons_total (consumption (currentData
      (generateCurrentData examplePlatform (\<lambda>_. 1 / 2) t t st))) = 0"
    by (simp only: stored_fields consumption_allOff[OF off] round2_zero)
  from u have "h30d (historicalData (generateCurrentData examplePlatform (\<lambda>_. 1 / 2) t t st))
      = addDataPoint examplePlatform ''30d'' ?D
          (currentData (generateCurrentData examplePlatform (\<lambda>_. 1 / 2) t t st)) t"
    by (simp only: h30d_generateCurrentData if_True)
  also have "\<dots> = \<lparr>labels = tl (labels ?D) @ [''Nov 3''],
          s_generation = tl (s_generation ?D) @ [16],
          s_consumption = tl (s_consumption ?D) @ [0]\<rparr>"
    unfolding addDataPoint_def Let_def by (simp add: len maxPoints_def lab g c)
  finally show ?thesis .
qed

lemma snapshotCalls_Suc:
  "snapshotCalls (Suc n) = snapshotCalls n
     @ [Generate (\<lambda>_. 1 / 2) (1793707201000 + 5000 * int n) (1793707201000 + 5000 * int n)]"
  by (simp add: snapshotCalls_def)

lemma tl_window:
  assumes "n < length xs"
  shows "tl (drop n xs @ replicate n x) @ [x] = drop (Suc n) xs @ replicate (Suc n) x"
proof -
  from assms have "drop n xs \<noteq> []" by simp
  then have "tl (drop n xs @ replicate n x) = tl (drop n xs) @ replicate n x" by simp
  moreover have "tl (drop n xs) = drop (Suc n) xs" by (simp add: drop_Suc tl_drop)
  ultimately show ?thesis by (simp add: replicate_append_same)
qed

lemma last_window:
  assumes "xs \<noteq> []" "last xs = x"
  shows "last (drop n xs @ replicate n x) = x"
  using assms by (cases n) (simp_all add: last_drop)

lemma series_after_snapshots:
  assumes off: "allOff st" and inv: "seriesInvariant ''30d'' (h30d (historicalData st))"
      and len: "length (labels (h30d (historicalData st))) = 720"
      and lst: "last (labels (h30d (historicalData st))) = ''Nov 3''"
      and n: "n \<le> 720"
  shows "allOff (performAll examplePlatform st (snapshotCalls n))
       \<and> h30d (historicalData (performAll examplePlatform st (snapshotCalls n)))
         = \<lparr>labels = drop n (labels (h30d (historicalData st))) @ replicate n ''Nov 3'',
            s_generation = drop n (s_generation (h30d (historicalData st))) @ replicate n 16,
            s_consumption = drop n (s_consumption (h30d (historicalData st))) @ replicate n 0\<rparr>"
  using n
proof (induction n)
  case 0
  from off show ?case by (simp add: snapshotCalls_def performAll_def)
next
  case (Suc n)
  let ?D = "h30d (historicalData st)"
  let ?S = "performAll examplePlatform st (snapshotCalls n)"
  let ?t = "1793707201000 + 5000 * int n"
  from Suc.prems have k: "n < 720" by simp
  from Suc.IH k have o: "allOff ?S"
    and h: "h30d (historicalData ?S)
         = \<lparr>labels = drop n (labels ?D) @ replicate n ''Nov 3'',
            s_generation = drop n (s_generation ?D) @ replicate n 16,
            s_consumption = drop n (s_consumption ?D) @ replicate n 0\<rparr>"
    by simp_all
  from inv len have lg: "length (s_generation ?D) = 720" and lc: "length (s_consumption ?D) = 720"
    by (simp_all add: seriesInvariant_def)
  from len have ne: "labels ?D \<noteq> []" by auto
  from k len have l1: "length (labels (h30d (historicalData ?S))) = 720" by (simp add: h)
  from last_window[OF ne lst, of n] have l2: "last (labels (h30d (historicalData ?S))) = ''Nov 3''"
    by (simp add: h)
  have p: "performAll examplePlatform st (snapshotCalls (Suc n))
      = generateCurrentData examplePlatform (\<lambda>_. 1 / 2) ?t ?t ?S"
    by (simp add: snapshotCalls_Suc performAll_def)
  from h30d_step[OF o l1 l2 snapshot_time[OF k]]
  have "h30d (historicalData (generateCurrentData examplePlatform (\<lambda>_. 1 / 2) ?t ?t ?S))
       = \<lparr>labels = tl (labels (h30d (historicalData ?S))) @ [''Nov 3''],
          s_generation = tl (s_generation (h30d (historicalData ?S))) @ [16],
          s_consumption = tl (s_consumption (h30d (historicalData ?S))) @ [0]\<rparr>" .
  also have "\<dots> = \<lparr>labels = drop (Suc n) (labels ?D) @ replicate (Suc n) ''Nov 3'',
            s_generation = drop (Suc n) (s_generation ?D) @ replicate (Suc n) 16,
            s_consumption = drop (Suc n) (s_consumption ?D) @ replicate (Suc n) 0\<rparr>"
    using k len lg lc by (simp only: h series.select_convs tl_window)
  finally have "h30d (historicalData (generateCurrentData examplePlatform (\<lambda>_. 1 / 2) ?t ?t ?S))
       = \<lparr>labels = drop (Suc n) (labels ?D) @ replicate (Suc n) ''Nov 3'',
            s_generation = drop (Suc n) (s_generation ?D) @ replicate (Suc n) 16,
            s_consumption = drop (Suc n) (s_consumption ?D) @ replicate (Suc n) 0\<rparr>" .
  with o show ?case by (simp only: p allOff_generateCurrentData simp_thms)
qed


lemma switchOff_state:
  "allOff (performAll examplePlatform exampleState switchOffCalls)"
  "historicalData (performAll examplePlatform exampleState switchOffCalls)
   = historicalData exampleState"
proof -
  show "allOff (performAll examplePlatform exampleState switchOffCalls)"
    by (simp add: allOff_def statuses_switchOff)
  show "historicalData (performAll examplePlatform exampleState switchOffCalls)
   = historicalData exampleState"
    by (simp add: performAll_def switchOffCalls_def)
qed

lemma series_reached:
  "h30d (historicalData
     (performAll examplePlatform exampleState (switchOffCalls @ snapshotCalls 720)))
   = \<lparr>labels = replicate 720 ''Nov 3'', s_generation = replicate 720 16,
      s_consumption = replicate 720 0\<rparr>"
proof -
  let ?st = "performAll examplePlatform exampleState switchOffCalls"
  let ?D = "h30d (historicalData exampleState)"
  have h0: "historicalData exampleState
      = initializeHistoricalData examplePlatform (\<lambda>_. 1 / 2) 1793707200000"
    by (simp add: exampleState_def newManager_def)
  from initializeHistoricalData_invariant[of examplePlatform "\<lambda>_. 1 / 2" 1793707200000]
  have inv: "seriesInvariant ''30d'' ?D" by (simp add: h0 historicalInvariant_def)
  from initial_h30d_last[of examplePlatform "\<lambda>_. 1 / 2" 1793707200000]
  have len: "length (labels ?D) = 720" and lst: "last (labels ?D) = ''Nov 3''"
    by (simp_all only: h0 label_example)
  from inv len have lg: "length (s_generation ?D) = 720" and lc: "length (s_consumption ?D) = 720"
    by (simp_all add: seriesInvariant_def)
  have n: "(720::nat) \<le> 720" by simp
  from series_after_snapshots[of ?st 720, OF switchOff_state(1) _ _ _ n] inv len lst
  have "h30d (historicalData (performAll examplePlatform ?st (snapshotCalls 720)))
         = \<lparr>labels = drop 720 (labels ?D) @ replicate 720 ''Nov 3'',
            s_generation = drop 720 (s_generation ?D) @ replicate 720 16,
            s_consumption = drop 720 (s_consumption ?D) @ replicate 720 0\<rparr>"
    by (simp only: switchOff_state(2) simp_thms)
  with len lg lc
  have "h30d (historicalData (performAll examplePlatform ?st (snapshotCalls 720)))
         = \<lparr>labels = replicate 720 ''Nov 3'', s_generation = replicate 720 16,
            s_consumption = replicate 720 0\<rparr>"
    by simp
  then show ?thesis by (simp only: performAll_def foldl_append)
qed

text \<open>
  C3 does not hold of the code. In the example browser, construct the manager, switch
  every device off and generate 720 snapshots: the \<open>30d\<close> series then holds 720 points
  with the generation 16 and the consumption 0, and \<open>getReportData\<close> divides the
  average generation 16 by the average consumption 0 and reports the efficiency
  \<open>Infinity\<close>, which the reports page prints as it is. The efficiency of the trends
  chart, in contrast, tests the denominator, \<open>cons > 0\<close>.
\<close>

theorem report_efficiency_infinite:
  "getReportData examplePlatform
     (performAll examplePlatform exampleState (switchOffCalls @ snapshotCalls 720)) ''30d''
   = Inr \<lparr>r_period = ''30d'',
          r_data = \<lparr>labels = replicate 720 ''Nov 3'', s_generation = replicate 720 16,
                     s_consumption = replicate 720 0\<rparr>,
          r_statistics =
            \<lparr>avgGeneration = Num 16, avgConsumption = Num 0, st_efficiency = PosInf,
             peakGeneration = Num 16, peakConsumption = Num 0,
             totalGeneration = Num 11520, totalConsumption = Num 0\<rparr>\<rparr>"
proof -
  let ?d = "\<lparr>labels = replicate 720 ''Nov 3'', s_generation = replicate 720 (16::real),
             s_consumption = replicate 720 (0::real)\<rparr>"
  have r: "js_round 1600 = 1600" "js_round 0 = 0" "js_round 1152000 = 1152000"
    by (simp_all add: js_round_def)
  have "reportStatistics examplePlatform ?d =
      \<lparr>avgGeneration = Num 16, avgConsumption = Num 0, st_efficiency = PosInf,
       peakGeneration = Num 16, peakConsumption = Num 0,
       totalGeneration = Num 11520, totalConsumption = Num 0\<rparr>"
    unfolding reportStatistics_def Let_def
    by (simp add: js_sum_replicate js_Math_max_replicate js_round2_def fmul_def fdiv_def r)
  then show ?thesis
    by (simp add: getReportData_def lookupPeriod_def series_reached)
qed

end
